theory Spec2Isabelle
  imports Main
begin

section \<open>Values, errors and model objects\<close>

text \<open>
  The mixins of \<^verbatim>\<open>facebook_api/mixins.py\<close> are embedded as functions on explicit
  state. An exception is a value of \<open>py_error\<close> on the left of a sum. A point in time
  is an integer.
\<close>

type_synonym time = int

datatype py_error = UnknownResourceType | KeyError | TypeError | ValueError | AttributeError

text \<open>
  What an attribute of a model object holds: \<^verbatim>\<open>None\<close>, a number, or the users of
  a many-to-many relation. A queryset of users is the list of their primary keys,
  each row once.
\<close>

datatype pyval = PNone | PInt int | PUsers "int list"

text \<open>
  The mixins read and write the count fields and the user relations by computed
  names (\<^verbatim>\<open>getattr\<close>, \<^verbatim>\<open>setattr\<close>), so a model object carries them as a dictionary from
  attribute names.
\<close>

record obj =
  self_pk :: int
  self_graph_id :: string
  created_time :: "time option"
  attrs :: "string \<rightharpoonup> pyval"

definition setattr :: "obj \<Rightarrow> string \<Rightarrow> pyval \<Rightarrow> obj" where
  "setattr s f v = s\<lparr>attrs := (attrs s)(f \<mapsto> v)\<rparr>"

text \<open>\<^verbatim>\<open>getattr(self, f)\<close>: a missing attribute raises.\<close>

definition getattr :: "obj \<Rightarrow> string \<Rightarrow> py_error + pyval" where
  "getattr s f = (case attrs s f of None \<Rightarrow> Inl AttributeError | Some v \<Rightarrow> Inr v)"

text \<open>\<^verbatim>\<open>getattr(self, f, None)\<close>: a missing attribute reads as \<^verbatim>\<open>None\<close>.\<close>

definition getattr_default :: "obj \<Rightarrow> string \<Rightarrow> pyval" where
  "getattr_default s f = (case attrs s f of None \<Rightarrow> PNone | Some v \<Rightarrow> v)"

fun truthy :: "pyval \<Rightarrow> bool" where
  "truthy PNone = False"
| "truthy (PInt n) = (n \<noteq> 0)"
| "truthy (PUsers us) = (us \<noteq> [])"

definition py_or :: "pyval \<Rightarrow> pyval \<Rightarrow> pyval" where
  "py_or a b = (if truthy a then a else b)"

text \<open>\<^verbatim>\<open>a + b\<close>: defined on two numbers, a \<^verbatim>\<open>TypeError\<close> otherwise.\<close>

fun py_add :: "pyval \<Rightarrow> pyval \<Rightarrow> py_error + pyval" where
  "py_add (PInt a) (PInt b) = Inr (PInt (a + b))"
| "py_add _ _ = Inl TypeError"

text \<open>\<^verbatim>\<open>sum(xs)\<close>, the running total given first.\<close>

fun py_sum :: "pyval \<Rightarrow> pyval list \<Rightarrow> py_error + pyval" where
  "py_sum acc [] = Inr acc"
| "py_sum acc (x # xs) = (case py_add acc x of Inl e \<Rightarrow> Inl e | Inr a \<Rightarrow> py_sum a xs)"

definition reaction_types :: "string list" where
  "reaction_types = [''love'', ''wow'', ''haha'', ''sad'', ''angry'', ''thankful'']"

text \<open>\<^verbatim>\<open>'{0}s_count'.format(reaction)\<close> and \<^verbatim>\<open>'{0}s_users'.format(reaction)\<close>.\<close>

definition count_field :: "string \<Rightarrow> string" where
  "count_field reaction = reaction @ ''s_count''"

definition users_field :: "string \<Rightarrow> string" where
  "users_field reaction = reaction @ ''s_users''"

section \<open>ActionableModelMixin\<close>

text \<open>
  The loop of \<^verbatim>\<open>save\<close>:
  \<^verbatim>\<open>self.actions_count += getattr(self, '{0}s_count'.format(reaction), None)\<close>.
\<close>

fun add_reaction_counts :: "obj \<Rightarrow> string list \<Rightarrow> py_error + obj" where
  "add_reaction_counts s [] = Inr s"
| "add_reaction_counts s (reaction # rs) =
     (case py_add (getattr_default s ''actions_count'') (getattr_default s (count_field reaction)) of
        Inl e \<Rightarrow> Inl e
      | Inr v \<Rightarrow> add_reaction_counts (setattr s ''actions_count'' v) rs)"

text \<open>
  \<^verbatim>\<open>ActionableModelMixin.save\<close>. It assigns \<^verbatim>\<open>actions_count\<close> and returns; the
  source makes no call to the framework's own save.
\<close>

definition ActionableModelMixin_save :: "obj \<Rightarrow> py_error + obj" where
  "ActionableModelMixin_save s =
     (case py_sum (PInt 0)
             (map (\<lambda>field. py_or (getattr_default s field) (PInt 0))
                  [''likes_count'', ''shares_count'', ''comments_count'']) of
        Inl e \<Rightarrow> Inl e
      | Inr subtotal \<Rightarrow>
          add_reaction_counts (setattr s ''actions_count'' subtotal)
            [''love'', ''wow'', ''haha'', ''sad'', ''angry'', ''thankful''])"

section \<open>ReactionableModelMixin: count\_reactions\<close>

text \<open>
  The loop of \<^verbatim>\<open>count_reactions\<close>:
  \<^verbatim>\<open>count += getattr(self, '{0}s_count'.format(reaction))\<close>.
\<close>

fun sum_counts :: "obj \<Rightarrow> pyval \<Rightarrow> string list \<Rightarrow> py_error + pyval" where
  "sum_counts s count [] = Inr count"
| "sum_counts s count (reaction # rs) =
     (case getattr s (count_field reaction) of
        Inl e \<Rightarrow> Inl e
      | Inr v \<Rightarrow> (case py_add count v of Inl e \<Rightarrow> Inl e | Inr c \<Rightarrow> sum_counts s c rs))"

text \<open>
  \<^verbatim>\<open>count_reactions\<close>. \<^verbatim>\<open>self.save()\<close> is the save method of the class the mixin is
  part of; it is the parameter \<open>save_method\<close>.
\<close>

definition count_reactions ::
  "(obj \<Rightarrow> py_error + obj) \<Rightarrow> obj \<Rightarrow> py_error + obj" where
  "count_reactions save_method s =
     (case sum_counts s (PInt 0) (reaction_types @ [''like'']) of
        Inl e \<Rightarrow> Inl e
      | Inr count \<Rightarrow> save_method (setattr s ''reactions_count'' count))"

section \<open>Remote resources, users and the remote interface\<close>

text \<open>
  A resource of the remote collection is a JSON object: a dictionary from keys to
  JSON values.
\<close>

datatype json = JNull | JInt int | JStr string | JObj "(string \<times> json) list"

type_synonym resource = "(string \<times> json) list"

type_synonym 'v dict = "(string \<times> 'v) list"

text \<open>\<^verbatim>\<open>d[k]\<close> reads with \<open>map_of\<close>; \<^verbatim>\<open>d[k] = v\<close> replaces the entry or adds one.\<close>

definition dict_set :: "'v dict \<Rightarrow> string \<Rightarrow> 'v \<Rightarrow> 'v dict" where
  "dict_set d k v =
     (if k \<in> set (map fst d) then map (\<lambda>(k', v'). if k' = k then (k', v) else (k', v')) d
      else d @ [(k, v)])"

fun json_truthy :: "json \<Rightarrow> bool" where
  "json_truthy JNull = False"
| "json_truthy (JInt n) = (n \<noteq> 0)"
| "json_truthy (JStr t) = (t \<noteq> [])"
| "json_truthy (JObj kvs) = (kvs \<noteq> [])"

text \<open>
  \<^verbatim>\<open>int(v)\<close> on a text: surrounding blanks are stripped, one sign may come first,
  and what follows must be one or more decimal digits; anything else is a
  \<^verbatim>\<open>ValueError\<close>. A text is a list of 8-bit characters here, and its blanks are
  those \<^verbatim>\<open>int\<close> strips in that range: tab, line feed, vertical tab, form feed,
  carriage return, space, next line (0x85) and no-break space (0xA0). Digit
  grouping with underscores is not read: the interpreters of the Django releases
  that still have \<^verbatim>\<open>django.contrib.contenttypes.generic\<close>, which the module imports,
  do not have it.
\<close>

definition is_space :: "char \<Rightarrow> bool" where
  "is_space c \<longleftrightarrow>
     c \<in> set [CHR 0x20, CHR 0x09, CHR 0x0A, CHR 0x0B, CHR 0x0C, CHR 0x0D, CHR 0x85, CHR 0xA0]"

definition strip :: "string \<Rightarrow> string" where
  "strip t = rev (dropWhile is_space (rev (dropWhile is_space t)))"

definition digit_of :: "char \<Rightarrow> nat option" where
  "digit_of c = map_of (zip ''0123456789'' [0, 1, 2, 3, 4, 5, 6, 7, 8, 9]) c"

fun digits_value :: "string \<Rightarrow> nat \<Rightarrow> nat option" where
  "digits_value [] acc = Some acc"
| "digits_value (c # cs) acc =
     (case digit_of c of None \<Rightarrow> None | Some d \<Rightarrow> digits_value cs (10 * acc + d))"

definition digits :: "string \<Rightarrow> py_error + nat" where
  "digits t =
     (if t = [] then Inl ValueError
      else (case digits_value t 0 of None \<Rightarrow> Inl ValueError | Some n \<Rightarrow> Inr n))"

fun py_int :: "json \<Rightarrow> py_error + int" where
  "py_int (JInt n) = Inr n"
| "py_int (JStr t) =
     (case strip t of
        [] \<Rightarrow> Inl ValueError
      | c # cs \<Rightarrow>
          if c = CHR ''-'' then map_sum id (\<lambda>n. - int n) (digits cs)
          else if c = CHR ''+'' then map_sum id int (digits cs)
          else map_sum id int (digits (c # cs)))"
| "py_int JNull = Inl TypeError"
| "py_int (JObj kvs) = Inl TypeError"

text \<open>\<^verbatim>\<open>str.upper\<close> and \<^verbatim>\<open>str.lower\<close> on the letters a to z.\<close>

definition upper_char :: "char \<Rightarrow> char" where
  "upper_char c =
     (case map_of (zip ''abcdefghijklmnopqrstuvwxyz'' ''ABCDEFGHIJKLMNOPQRSTUVWXYZ'') c of
        None \<Rightarrow> c | Some u \<Rightarrow> u)"

definition lower_char :: "char \<Rightarrow> char" where
  "lower_char c =
     (case map_of (zip ''ABCDEFGHIJKLMNOPQRSTUVWXYZ'' ''abcdefghijklmnopqrstuvwxyz'') c of
        None \<Rightarrow> c | Some l \<Rightarrow> l)"

definition upper :: "string \<Rightarrow> string" where
  "upper t = map upper_char t"

definition lower :: "string \<Rightarrow> string" where
  "lower t = map lower_char t"

text \<open>
  A row of the users table: its primary key and its remote id (read as a number,
  as \<^verbatim>\<open>map(int, ...)\<close> does).
\<close>

record user =
  pk :: int
  graph_id :: int

text \<open>
  A row of the through table of \<^verbatim>\<open>shares_users\<close>, a \<^verbatim>\<open>ManyToManyHistoryField\<close>: the
  sharing record, the user, and the validity window of the association.
\<close>

record edge =
  obj_id :: int
  user_id :: int
  time_from :: "time option"
  time_to :: "time option"

record db =
  users :: "user list"
  through :: "edge list"

text \<open>
  One page of the remote collection: its entries and, when there is a next page,
  the \<^verbatim>\<open>after\<close> cursor that requests it. The only keyword argument the fetch
  routines are passed on is that cursor.
\<close>

record response =
  data :: "resource list"
  paging_after :: "string option"

type_synonym kwargs = "string option"

text \<open>
  What the routines call and this file does not define: \<^verbatim>\<open>api_call\<close> (the remote
  request: path, limit, cursor; a falsy response is \<open>None\<close>),
  \<^verbatim>\<open>get_or_create_from_small_resource\<close> (the user row it returns for a resource, or
  the error it raises) and \<^verbatim>\<open>dateutil\<close>'s \<^verbatim>\<open>parse\<close>. They are parameters.
\<close>

record env =
  api_call :: "string \<Rightarrow> nat option \<Rightarrow> kwargs \<Rightarrow> response option"
  get_or_create_from_small_resource :: "resource \<Rightarrow> py_error + user"
  datetime_parse :: "json \<Rightarrow> py_error + time"

text \<open>
  \<^verbatim>\<open>User.objects.filter(pk__in=ids)\<close>: every key of \<open>ids\<close> is the key of a row the
  helper returned, so the queryset holds exactly these rows, each once.
\<close>

definition User_objects_filter :: "int list \<Rightarrow> int list" where
  "User_objects_filter ids = remdups ids"

type_synonym save_method = "obj \<Rightarrow> py_error + obj"

type_synonym callback = "obj \<Rightarrow> int list \<Rightarrow> py_error + obj \<times> int list"

type_synonym page_fn = "kwargs \<Rightarrow> py_error + int list \<times> response option"

text \<open>
  The decorator \<^verbatim>\<open>fetch_all(return_all=..., paging_next_arg_name='after')\<close> is not
  defined in this file: where a routine applies it by hand (\<^verbatim>\<open>fetch_reactions\<close>)
  it is a parameter, which gets the callback, the wrapped function (as a function
  of the keyword arguments) and the object.
\<close>

type_synonym decorator = "callback \<Rightarrow> page_fn \<Rightarrow> obj \<Rightarrow> py_error + obj \<times> int list"

section \<open>LikableModelMixin\<close>

definition update_count_and_get_like_users :: "save_method \<Rightarrow> callback" where
  "update_count_and_get_like_users save_method self instances =
     (case save_method
             (setattr (setattr self ''likes_users'' (PUsers instances))
                ''likes_count'' (PInt (int (length instances)))) of
        Inl e \<Rightarrow> Inl e
      | Inr s \<Rightarrow> Inr (s, instances))"

text \<open>The loop of \<^verbatim>\<open>fetch_likes\<close> over \<^verbatim>\<open>response['data']\<close>.\<close>

fun likes_loop :: "env \<Rightarrow> resource list \<Rightarrow> int list \<Rightarrow> py_error + int list" where
  "likes_loop env [] ids = Inr ids"
| "likes_loop env (resource # rest) ids =
     (case get_or_create_from_small_resource env resource of
        Inl e \<Rightarrow> if e = UnknownResourceType then likes_loop env rest ids else Inl e
      | Inr u \<Rightarrow> likes_loop env rest (ids @ [pk u]))"

text \<open>\<^verbatim>\<open>fetch_likes\<close>, the function under the decorator: one request, one page.\<close>

definition fetch_likes ::
  "env \<Rightarrow> obj \<Rightarrow> nat \<Rightarrow> kwargs \<Rightarrow> py_error + int list \<times> response option" where
  "fetch_likes env self limit kw =
     (let response = api_call env (self_graph_id self @ ''/likes'') (Some limit) kw in
      case (case response of None \<Rightarrow> Inr [] | Some r \<Rightarrow> likes_loop env (data r) []) of
        Inl e \<Rightarrow> Inl e
      | Inr ids \<Rightarrow> Inr (User_objects_filter ids, response))"

section \<open>ReactionableModelMixin: fetch\_reactions\<close>

definition update_count_and_get_users_builder :: "string \<Rightarrow> save_method \<Rightarrow> callback" where
  "update_count_and_get_users_builder reaction save_method self instances =
     (case save_method
             (setattr (setattr self (users_field reaction) (PUsers instances))
                (count_field reaction) (PInt (int (length instances)))) of
        Inl e \<Rightarrow> Inl e
      | Inr s \<Rightarrow> Inr (s, instances))"

text \<open>
  \<^verbatim>\<open>getattr(self, 'update_count_and_get_{0}_users'.format(name))\<close>: the method of
  \<^verbatim>\<open>LikableModelMixin\<close> for \<^verbatim>\<open>like\<close> (the class is taken to have that mixin too), the
  built one for a reaction type.
\<close>

definition count_method :: "save_method \<Rightarrow> string \<Rightarrow> callback" where
  "count_method save_method name =
     (if name = ''like'' then update_count_and_get_like_users save_method
      else update_count_and_get_users_builder name save_method)"

definition types :: "string list" where
  "types = reaction_types @ [''LIKE'']"

text \<open>
  \<^verbatim>\<open>ids[resource['type']] += [user.pk]\<close>, after the user was found or created. A key
  that is no text is not in the dictionary; a dictionary as key cannot be hashed.
\<close>

definition add_reaction_user ::
  "env \<Rightarrow> resource \<Rightarrow> int list dict \<Rightarrow> py_error + int list dict" where
  "add_reaction_user env resource ids =
     (case get_or_create_from_small_resource env resource of
        Inl e \<Rightarrow> Inl e
      | Inr u \<Rightarrow>
          (case map_of resource ''type'' of
             None \<Rightarrow> Inl KeyError
           | Some (JStr t) \<Rightarrow>
               (case map_of ids t of
                  None \<Rightarrow> Inl KeyError
                | Some l \<Rightarrow> Inr (dict_set ids t (l @ [pk u])))
           | Some (JObj kvs) \<Rightarrow> Inl TypeError
           | Some _ \<Rightarrow> Inl KeyError))"

text \<open>The body of the outer \<^verbatim>\<open>try\<close> for one resource.\<close>

definition reactions_step ::
  "env \<Rightarrow> string option \<Rightarrow> resource \<Rightarrow> int list dict \<Rightarrow> py_error + int list dict" where
  "reactions_step env reaction resource ids =
     (case reaction of
        None \<Rightarrow> add_reaction_user env resource ids
      | Some re \<Rightarrow>
          (case map_of resource ''type'' of
             None \<Rightarrow> Inl KeyError
           | Some t \<Rightarrow> if JStr (upper re) \<noteq> t then Inr ids else add_reaction_user env resource ids))"

text \<open>
  The loop of \<^verbatim>\<open>fetch_reactions\<close> over \<^verbatim>\<open>response['data']\<close>: \<^verbatim>\<open>UnknownResourceType\<close>
  and \<^verbatim>\<open>KeyError\<close> are caught and the loop continues.
\<close>

fun reactions_loop ::
  "env \<Rightarrow> string option \<Rightarrow> resource list \<Rightarrow> int list dict \<Rightarrow> py_error + int list dict" where
  "reactions_loop env reaction [] ids = Inr ids"
| "reactions_loop env reaction (resource # rest) ids =
     (case reactions_step env reaction resource ids of
        Inl e \<Rightarrow>
          if e = UnknownResourceType \<or> e = KeyError then reactions_loop env reaction rest ids
          else Inl e
      | Inr ids' \<Rightarrow> reactions_loop env reaction rest ids')"

text \<open>
  The local function \<^verbatim>\<open>get_user_ids(self, ids, response)\<close>: it makes no request, and
  it takes no keyword argument.
\<close>

definition get_user_ids :: "int list \<Rightarrow> response option \<Rightarrow> page_fn" where
  "get_user_ids ids response kw =
     (case kw of None \<Rightarrow> Inr (User_objects_filter ids, response) | Some c \<Rightarrow> Inl TypeError)"

text \<open>The second loop of \<^verbatim>\<open>fetch_reactions\<close>, over \<^verbatim>\<open>types\<close>, filling \<^verbatim>\<open>result\<close>.\<close>

fun reactions_results ::
  "save_method \<Rightarrow> decorator \<Rightarrow> string option \<Rightarrow> int list dict \<Rightarrow> response option \<Rightarrow>
   string list \<Rightarrow> obj \<Rightarrow> int list dict \<Rightarrow> py_error + obj \<times> int list dict" where
  "reactions_results save_method fetch_all reaction ids response [] self result = Inr (self, result)"
| "reactions_results save_method fetch_all reaction ids response (id_type # rest) self result =
     (if (case reaction of None \<Rightarrow> False | Some re \<Rightarrow> upper re \<noteq> upper id_type)
      then reactions_results save_method fetch_all reaction ids response rest self result
      else
        (case map_of ids (upper id_type) of
           None \<Rightarrow> Inl KeyError
         | Some l \<Rightarrow>
             (case fetch_all (count_method save_method (lower id_type)) (get_user_ids l response) self of
                Inl e \<Rightarrow> Inl e
              | Inr (self1, fetched) \<Rightarrow>
                  (case count_method save_method (lower id_type) self1 fetched of
                     Inl e \<Rightarrow> Inl e
                   | Inr (self2, counted) \<Rightarrow>
                       reactions_results save_method fetch_all reaction ids response rest self2
                         (dict_set result (upper id_type) fetched)))))"

datatype reactions_result = Users "int list" | Dictionary "int list dict"

definition fetch_reactions ::
  "save_method \<Rightarrow> decorator \<Rightarrow> env \<Rightarrow> obj \<Rightarrow> string option \<Rightarrow> nat \<Rightarrow> kwargs \<Rightarrow>
   py_error + obj \<times> reactions_result" where
  "fetch_reactions save_method fetch_all env self reaction limit kw =
     (let ids = map (\<lambda>id_type. (upper id_type, [])) types;
          response = api_call env (self_graph_id self @ ''/reactions'') (Some limit) kw
      in case (case response of None \<Rightarrow> Inr ids
               | Some r \<Rightarrow> reactions_loop env reaction (data r) ids) of
           Inl e \<Rightarrow> Inl e
         | Inr ids' \<Rightarrow>
             (case reactions_results save_method fetch_all reaction ids' response types self [] of
                Inl e \<Rightarrow> Inl e
              | Inr (self', result) \<Rightarrow>
                  (case reaction of
                     None \<Rightarrow> Inr (self', Dictionary result)
                   | Some re \<Rightarrow>
                       (case map_of result (upper re) of
                          None \<Rightarrow> Inl KeyError
                        | Some us \<Rightarrow> Inr (self', Users us)))))"

text \<open>
  The lines of \<^verbatim>\<open>fetch_reactions\<close> after its first loop, on their own: the loop over
  \<^verbatim>\<open>types\<close> and the return, given the ids collected so far.
\<close>

definition reactions_return ::
  "save_method \<Rightarrow> decorator \<Rightarrow> string option \<Rightarrow> int list dict \<Rightarrow> response option \<Rightarrow> obj \<Rightarrow>
   py_error + obj \<times> reactions_result" where
  "reactions_return save_method fetch_all reaction ids response self =
     (case reactions_results save_method fetch_all reaction ids response types self [] of
        Inl e \<Rightarrow> Inl e
      | Inr (self', result) \<Rightarrow>
          (case reaction of
             None \<Rightarrow> Inr (self', Dictionary result)
           | Some re \<Rightarrow>
               (case map_of result (upper re) of
                  None \<Rightarrow> Inl KeyError
                | Some us \<Rightarrow> Inr (self', Users us))))"

section \<open>ShareableModelMixin\<close>

text \<open>
  \<^verbatim>\<open>update_count_and_get_shares_users\<close>: the count is assigned (and the record saved)
  only when it is null; \<^verbatim>\<open>shares_users\<close> is not assigned.
\<close>

definition update_count_and_get_shares_users :: "save_method \<Rightarrow> callback" where
  "update_count_and_get_shares_users save_method self instances =
     (case getattr self ''shares_count'' of
        Inl e \<Rightarrow> Inl e
      | Inr v \<Rightarrow>
          if v = PNone then
            (case save_method (setattr self ''shares_count'' (PInt (int (length instances)))) of
               Inl e \<Rightarrow> Inl e
             | Inr s \<Rightarrow> Inr (s, instances))
          else Inr (self, instances))"

text \<open>\<^verbatim>\<open>[post for post in response['data'] if post.get('from')]\<close>.\<close>

definition shares_posts :: "response \<Rightarrow> resource list" where
  "shares_posts r =
     filter (\<lambda>post. case map_of post ''from'' of None \<Rightarrow> False | Some v \<Rightarrow> json_truthy v) (data r)"

text \<open>\<^verbatim>\<open>int(post['from']['id'])\<close>.\<close>

definition post_graph_id :: "resource \<Rightarrow> py_error + int" where
  "post_graph_id post =
     (case map_of post ''from'' of
        None \<Rightarrow> Inl KeyError
      | Some (JObj author) \<Rightarrow>
          (case map_of author ''id'' of None \<Rightarrow> Inl KeyError | Some v \<Rightarrow> py_int v)
      | Some _ \<Rightarrow> Inl TypeError)"

text \<open>\<^verbatim>\<open>datetime_parse(post['created_time'])\<close>.\<close>

definition post_created_time :: "env \<Rightarrow> resource \<Rightarrow> py_error + time" where
  "post_created_time env post =
     (case map_of post ''created_time'' of None \<Rightarrow> Inl KeyError | Some v \<Rightarrow> datetime_parse env v)"

text \<open>The list of pairs the dictionary \<^verbatim>\<open>timestamps\<close> is built from, in the order of the posts.\<close>

fun timestamp_pairs :: "env \<Rightarrow> resource list \<Rightarrow> py_error + (int \<times> time) list" where
  "timestamp_pairs env [] = Inr []"
| "timestamp_pairs env (post # posts) =
     (case post_graph_id post of
        Inl e \<Rightarrow> Inl e
      | Inr g \<Rightarrow>
          (case post_created_time env post of
             Inl e \<Rightarrow> Inl e
           | Inr t \<Rightarrow>
               (case timestamp_pairs env posts of
                  Inl e \<Rightarrow> Inl e
                | Inr ps \<Rightarrow> Inr ((g, t) # ps))))"

text \<open>\<^verbatim>\<open>dict(pairs)\<close>: of two pairs with one key the later one stays.\<close>

definition timestamps :: "(int \<times> time) list \<Rightarrow> int \<rightharpoonup> time" where
  "timestamps ps = map_of (rev ps)"

definition ids_new :: "(int \<times> time) list \<Rightarrow> int list" where
  "ids_new ps = remdups (map fst ps)"

text \<open>
  \<^verbatim>\<open>shares_users.get_query_set_through()\<close>, of the library \<^verbatim>\<open>m2m_history\<close>: the
  rows of the through table that belong to the record, as the second deletion spells
  out with its own filter on the record's key.
\<close>

definition get_query_set_through :: "db \<Rightarrow> obj \<Rightarrow> edge list" where
  "get_query_set_through d self = filter (\<lambda>e. obj_id e = self_pk self) (through d)"

text \<open>
  Modelled from the spec: \<^verbatim>\<open>get_query_set\<close> of the relation's manager belongs to
  the library \<^verbatim>\<open>m2m_history\<close>, which is not among the sources. By the spec's data
  model, association edges without an end time are the currently active ones.
\<close>

definition get_query_set :: "db \<Rightarrow> obj \<Rightarrow> edge list" where
  "get_query_set d self = filter (\<lambda>e. time_to e = None) (get_query_set_through d self)"

text \<open>
  \<^verbatim>\<open>ids_current\<close>: the remote ids of the users whose key is among
  \<^verbatim>\<open>get_query_set(only_pk=True).exclude(time_from=None)\<close>.
\<close>

definition ids_current :: "db \<Rightarrow> obj \<Rightarrow> int list" where
  "ids_current d self =
     map graph_id
       (filter (\<lambda>u. pk u \<in> set (map user_id (filter (\<lambda>e. time_from e \<noteq> None) (get_query_set d self))))
          (users d))"

definition ids_add :: "int list \<Rightarrow> int list \<Rightarrow> int set" where
  "ids_add new current = set new - set current"

definition ids_remove :: "int list \<Rightarrow> int list \<Rightarrow> int set" where
  "ids_remove new current = set current - set new"

text \<open>\<^verbatim>\<open>sorted(post['from'].keys()) == ['id', 'name']\<close>, the keys of a dictionary being distinct.\<close>

definition keys_id_name :: "resource \<Rightarrow> bool" where
  "keys_id_name author \<longleftrightarrow> map fst author = [''id'', ''name''] \<or> map fst author = [''name'', ''id'']"

definition post_from :: "resource \<Rightarrow> resource" where
  "post_from post = (case map_of post ''from'' of Some (JObj author) \<Rightarrow> author | _ \<Rightarrow> [])"

text \<open>
  The loop of \<^verbatim>\<open>fetch_shares\<close> over the posts, collecting \<^verbatim>\<open>ids\<close> and
  \<^verbatim>\<open>ids_add_pairs\<close>.
\<close>

fun shares_loop ::
  "env \<Rightarrow> int set \<Rightarrow> resource list \<Rightarrow> int list \<Rightarrow> (int \<times> int) list \<Rightarrow>
   py_error + int list \<times> (int \<times> int) list" where
  "shares_loop env add [] ids ids_add_pairs = Inr (ids, ids_add_pairs)"
| "shares_loop env add (post # posts) ids ids_add_pairs =
     (case post_graph_id post of
        Inl e \<Rightarrow> Inl e
      | Inr g \<Rightarrow>
          if keys_id_name (post_from post) then
            (case get_or_create_from_small_resource env (post_from post) of
               Inl e \<Rightarrow>
                 if e = UnknownResourceType then shares_loop env add posts ids ids_add_pairs
                 else Inl e
             | Inr u \<Rightarrow>
                 shares_loop env add posts (ids @ [pk u])
                   (if g \<in> add \<and> g \<notin> set (map fst ids_add_pairs)
                    then ids_add_pairs @ [(g, pk u)] else ids_add_pairs))
          else shares_loop env add posts ids ids_add_pairs)"

text \<open>\<^verbatim>\<open>get_share_date\<close>.\<close>

definition get_share_date :: "obj \<Rightarrow> (int \<rightharpoonup> time) \<Rightarrow> int \<Rightarrow> time option" where
  "get_share_date self ts g = (case ts g of Some t \<Rightarrow> Some t | None \<Rightarrow> created_time self)"

text \<open>The rows \<^verbatim>\<open>bulk_create\<close> is given.\<close>

definition new_shares :: "obj \<Rightarrow> (int \<rightharpoonup> time) \<Rightarrow> (int \<times> int) list \<Rightarrow> edge list" where
  "new_shares self ts ids_add_pairs =
     map (\<lambda>(g, p). \<lparr>obj_id = self_pk self, user_id = p, time_from = get_share_date self ts g,
                    time_to = None\<rparr>) ids_add_pairs"

text \<open>
  The two deletions: the rows of the record without \<^verbatim>\<open>time_from\<close>, then the rows of
  the record whose user is about to be added.
\<close>

definition delete_old_shares :: "obj \<Rightarrow> (int \<times> int) list \<Rightarrow> edge list \<Rightarrow> edge list" where
  "delete_old_shares self ids_add_pairs es =
     filter (\<lambda>e. \<not> (obj_id e = self_pk self \<and> user_id e \<in> set (map snd ids_add_pairs)))
       (filter (\<lambda>e. \<not> (obj_id e = self_pk self \<and> time_from e = None)) es)"

text \<open>
  \<^verbatim>\<open>fetch_shares\<close>, the function under the decorators: one request, one page. The
  set \<^verbatim>\<open>ids_remove\<close> is computed and not used after.
\<close>

definition fetch_shares ::
  "env \<Rightarrow> db \<Rightarrow> obj \<Rightarrow> kwargs \<Rightarrow> py_error + db \<times> int list \<times> response option" where
  "fetch_shares env d self kw =
     (let response = api_call env (self_graph_id self @ ''/sharedposts'') None kw in
      case response of
        None \<Rightarrow> Inr (d, User_objects_filter [], response)
      | Some r \<Rightarrow>
          (let posts = shares_posts r in
           case timestamp_pairs env posts of
             Inl e \<Rightarrow> Inl e
           | Inr ps \<Rightarrow>
               (let current = ids_current d self;
                    add = ids_add (ids_new ps) current;
                    remove = ids_remove (ids_new ps) current
                in case shares_loop env add posts [] [] of
                     Inl e \<Rightarrow> Inl e
                   | Inr (ids, ids_add_pairs) \<Rightarrow>
                       Inr (d\<lparr>through := delete_old_shares self ids_add_pairs (through d)
                                          @ new_shares self (timestamps ps) ids_add_pairs\<rparr>,
                            User_objects_filter ids, response))))"

text \<open>
  A shared post resolves to a user: its author has the remote id \<open>g\<close> and exactly the
  keys \<^verbatim>\<open>id\<close> and \<^verbatim>\<open>name\<close>, and the helper returns the user.
\<close>

definition resolves :: "env \<Rightarrow> resource \<Rightarrow> int \<Rightarrow> user \<Rightarrow> bool" where
  "resolves env post g u \<longleftrightarrow>
     post_graph_id post = Inr g \<and> keys_id_name (post_from post)
     \<and> get_or_create_from_small_resource env (post_from post) = Inr u"

section \<open>Sample data for the closed examples\<close>

text \<open>
  A sample helper: a resource with the keys \<^verbatim>\<open>id\<close> and \<^verbatim>\<open>name\<close> (and perhaps
  \<^verbatim>\<open>type\<close>) is the user with that remote id, whose key is a tenth of it; any other
  resource is of unknown type. Sample times are written as numbers.
\<close>

definition sample_get_or_create :: "resource \<Rightarrow> py_error + user" where
  "sample_get_or_create resource =
     (if keys_id_name (filter (\<lambda>kv. fst kv \<noteq> ''type'') resource) then
        (case map_of resource ''id'' of
           None \<Rightarrow> Inl KeyError
         | Some v \<Rightarrow>
             (case py_int v of Inl e \<Rightarrow> Inl e | Inr g \<Rightarrow> Inr \<lparr>pk = g div 10, graph_id = g\<rparr>))
      else Inl UnknownResourceType)"

definition share_ann :: resource where
  "share_ann = [(''from'', JObj [(''id'', JStr ''100''), (''name'', JStr ''Ann'')]),
                (''created_time'', JInt 20)]"

definition share_shop :: resource where
  "share_shop = [(''from'', JObj [(''category'', JStr ''Store''), (''id'', JStr ''300''),
                                  (''name'', JStr ''Shop'')]),
                 (''created_time'', JInt 30)]"

definition share_anonymous :: resource where
  "share_anonymous = [(''created_time'', JInt 40)]"

definition share_undated :: resource where
  "share_undated = [(''from'', JObj [(''id'', JStr ''100''), (''name'', JStr ''Ann'')])]"

definition shares_page :: response where
  "shares_page = \<lparr>data = [share_ann, share_shop, share_anonymous], paging_after = None\<rparr>"

definition sample_env :: "response \<Rightarrow> env" where
  "sample_env page =
     \<lparr>api_call = (\<lambda>path limit kw. case kw of None \<Rightarrow> Some page | Some c \<Rightarrow> None),
      get_or_create_from_small_resource = sample_get_or_create,
      datetime_parse = py_int\<rparr>"

text \<open>
  The record 1 with four rows in the through table: an ended share of user 10, a
  current share of user 20, a row of user 40 with no times, and a row of record 2.
\<close>

definition ended_share :: edge where
  "ended_share = \<lparr>obj_id = 1, user_id = 10, time_from = Some 5, time_to = Some 8\<rparr>"

definition current_share :: edge where
  "current_share = \<lparr>obj_id = 1, user_id = 20, time_from = Some 6, time_to = None\<rparr>"

definition unstamped_share :: edge where
  "unstamped_share = \<lparr>obj_id = 1, user_id = 40, time_from = None, time_to = None\<rparr>"

definition foreign_share :: edge where
  "foreign_share = \<lparr>obj_id = 2, user_id = 10, time_from = Some 1, time_to = None\<rparr>"

definition sample_db :: db where
  "sample_db =
     \<lparr>users = [\<lparr>pk = 10, graph_id = 100\<rparr>, \<lparr>pk = 20, graph_id = 200\<rparr>, \<lparr>pk = 40, graph_id = 400\<rparr>],
      through = [ended_share, current_share, unstamped_share, foreign_share]\<rparr>"

definition ann_share :: edge where
  "ann_share = \<lparr>obj_id = 1, user_id = 10, time_from = Some 20, time_to = None\<rparr>"

text \<open>What the guarded part of \<^verbatim>\<open>save\<close> reads for a field: zero when missing or null.\<close>

definition guarded_count :: "obj \<Rightarrow> string \<Rightarrow> int" where
  "guarded_count s f = (case attrs s f of Some (PInt n) \<Rightarrow> n | _ \<Rightarrow> 0)"

definition number_or_null :: "pyval option \<Rightarrow> bool" where
  "number_or_null v = (case v of Some (PUsers us) \<Rightarrow> False | _ \<Rightarrow> True)"

text \<open>
  The framework's own save (\<^verbatim>\<open>django.db.models.Model.save\<close>) writes the row and
  leaves the attributes of the object as they are.
\<close>

definition model_save :: "obj \<Rightarrow> py_error + obj" where
  "model_save s = Inr s"

text \<open>Sample objects: every count set; a null count; no reaction counts at all.\<close>

definition counted_post :: obj where
  "counted_post = \<lparr>self_pk = 1, self_graph_id = ''10_20'', created_time = Some 100,
     attrs = [''likes_count'' \<mapsto> PInt 7, ''comments_count'' \<mapsto> PNone,
              ''loves_count'' \<mapsto> PInt 1, ''wows_count'' \<mapsto> PInt 2, ''hahas_count'' \<mapsto> PInt 3,
              ''sads_count'' \<mapsto> PInt 4, ''angrys_count'' \<mapsto> PInt 5,
              ''thankfuls_count'' \<mapsto> PInt 6]\<rparr>"

definition null_count_post :: obj where
  "null_count_post = setattr counted_post ''wows_count'' PNone"

text \<open>
  A sample decorator: it calls the wrapped function once, with no cursor, and hands
  the instances to the callback.
\<close>

definition sample_fetch_all :: decorator where
  "sample_fetch_all return_all f self =
     (case f None of Inl e \<Rightarrow> Inl e | Inr (instances, response) \<Rightarrow> return_all self instances)"

definition love_ann :: resource where
  "love_ann = [(''id'', JStr ''100''), (''name'', JStr ''Ann''), (''type'', JStr ''LOVE'')]"

definition wow_bob :: resource where
  "wow_bob = [(''id'', JStr ''200''), (''name'', JStr ''Bob''), (''type'', JStr ''WOW'')]"

definition untyped_cy :: resource where
  "untyped_cy = [(''id'', JStr ''300''), (''name'', JStr ''Cy'')]"

definition like_dee :: resource where
  "like_dee = [(''id'', JStr ''400''), (''name'', JStr ''Dee''), (''type'', JStr ''LIKE'')]"

definition love_eve :: resource where
  "love_eve = [(''id'', JStr ''500''), (''name'', JStr ''Eve''), (''type'', JStr ''LOVE'')]"

definition shop_page :: resource where
  "shop_page = [(''category'', JStr ''Store''), (''id'', JStr ''300''), (''name'', JStr ''Shop'')]"

definition reactions_page :: response where
  "reactions_page = \<lparr>data = [love_ann, wow_bob, untyped_cy, like_dee], paging_after = None\<rparr>"

text \<open>A remote collection of two pages: the cursor \<^verbatim>\<open>c1\<close> requests the second.\<close>

definition first_page :: response where
  "first_page = \<lparr>data = [love_ann], paging_after = Some ''c1''\<rparr>"

definition second_page :: response where
  "second_page = \<lparr>data = [love_eve], paging_after = None\<rparr>"

definition paged_env :: env where
  "paged_env =
     \<lparr>api_call = (\<lambda>path limit kw. case kw of None \<Rightarrow> Some first_page
                     | Some c \<Rightarrow> if c = ''c1'' then Some second_page else None),
      get_or_create_from_small_resource = sample_get_or_create,
      datetime_parse = py_int\<rparr>"

definition shared_post :: obj where
  "shared_post = setattr counted_post ''shares_count'' (PInt 7)"

definition undated_page :: response where
  "undated_page = \<lparr>data = [share_ann, share_undated], paging_after = None\<rparr>"

text \<open>A second share of Ann, later; a remote that answers nothing.\<close>

definition share_ann_later :: resource where
  "share_ann_later = [(''from'', JObj [(''name'', JStr ''Ann''), (''id'', JStr '' 100'')]),
                      (''created_time'', JInt 99)]"

definition twice_page :: response where
  "twice_page = \<lparr>data = [share_ann, share_shop, share_ann_later], paging_after = None\<rparr>"

definition ann_later_share :: edge where
  "ann_later_share = \<lparr>obj_id = 1, user_id = 10, time_from = Some 99, time_to = None\<rparr>"

definition silent_env :: env where
  "silent_env =
     \<lparr>api_call = (\<lambda>path limit kw. None),
      get_or_create_from_small_resource = sample_get_or_create,
      datetime_parse = py_int\<rparr>"

text \<open>
  Ann's id on a post whose author also carries a category; pages for the likes and
  for single posts.
\<close>

definition share_ann_as_page :: resource where
  "share_ann_as_page = [(''from'', JObj [(''category'', JStr ''Store''), (''id'', JStr ''100''),
                                         (''name'', JStr ''Ann'')]),
                        (''created_time'', JInt 99)]"

definition masked_page :: response where
  "masked_page = \<lparr>data = [share_ann, share_ann_as_page], paging_after = None\<rparr>"

definition ann_page :: response where
  "ann_page = \<lparr>data = [share_ann], paging_after = None\<rparr>"

definition likes_page :: response where
  "likes_page = \<lparr>data = [untyped_cy, shop_page, love_ann], paging_after = None\<rparr>"

section \<open>Properties of the count aggregation\<close>

lemma getattr_default_setattr:
  "getattr_default (setattr s f v) g = (if g = f then v else getattr_default s g)"
  by (simp add: getattr_default_def setattr_def)

lemma py_add_Inr_iff: "py_add a b = Inr c \<longleftrightarrow> (\<exists>m n. a = PInt m \<and> b = PInt n \<and> c = PInt (m + n))"
  by (cases a; cases b) auto

lemma count_field_not_actions: "reaction \<noteq> ''action'' \<Longrightarrow> count_field reaction \<noteq> ''actions_count''"
  by (auto simp: count_field_def)

lemma add_reaction_counts_Inr:
  assumes "''action'' \<notin> set rs"
    and "add_reaction_counts s rs = Inr s'"
  shows "\<forall>r\<in>set rs. \<exists>n. attrs s (count_field r) = Some (PInt n)"
  using assms
proof (induction rs arbitrary: s)
  case Nil
  then show ?case by simp
next
  case (Cons r rs)
  from Cons.prems(2) obtain v where
    v: "py_add (getattr_default s ''actions_count'') (getattr_default s (count_field r)) = Inr v"
    and rest: "add_reaction_counts (setattr s ''actions_count'' v) rs = Inr s'"
    by (auto split: sum.splits)
  from v obtain n where n: "getattr_default s (count_field r) = PInt n"
    by (auto simp: py_add_Inr_iff)
  then have here: "attrs s (count_field r) = Some (PInt n)"
    by (auto simp: getattr_default_def split: option.splits)
  from Cons.prems(1) have notin: "''action'' \<notin> set rs" by simp
  have "\<forall>q\<in>set rs. \<exists>m. attrs (setattr s ''actions_count'' v) (count_field q) = Some (PInt m)"
    using Cons.IH [OF notin rest] .
  moreover have "\<forall>q\<in>set rs. count_field q \<noteq> ''actions_count''"
    using notin by (auto simp: count_field_def)
  ultimately have "\<forall>q\<in>set rs. \<exists>m. attrs s (count_field q) = Some (PInt m)"
    by (auto simp: setattr_def)
  with here show ?case by auto
qed

lemma add_reaction_counts_total:
  assumes "''action'' \<notin> set rs"
    and "attrs s ''actions_count'' = Some (PInt a)"
    and "map (\<lambda>r. attrs s (count_field r)) rs = map (\<lambda>n. Some (PInt n)) ns"
  shows "add_reaction_counts s rs = Inr (setattr s ''actions_count'' (PInt (a + sum_list ns)))"
  using assms
proof (induction rs arbitrary: s a ns)
  case Nil
  then show ?case
    by (cases s) (auto simp: setattr_def fun_upd_idem)
next
  case (Cons r rs)
  from Cons.prems(3) obtain n ms where ns: "ns = n # ms"
    and here: "attrs s (count_field r) = Some (PInt n)"
    and rest: "map (\<lambda>r. attrs s (count_field r)) rs = map (\<lambda>n. Some (PInt n)) ms"
    by (cases ns) auto
  let ?s = "setattr s ''actions_count'' (PInt (a + n))"
  from Cons.prems(1) have notin: "''action'' \<notin> set rs" by simp
  then have "\<forall>q\<in>set rs. count_field q \<noteq> ''actions_count''"
    by (auto simp: count_field_def)
  then have "map (\<lambda>r. attrs ?s (count_field r)) rs = map (\<lambda>r. attrs s (count_field r)) rs"
    by (intro map_cong) (auto simp: setattr_def)
  with rest have rest': "map (\<lambda>r. attrs ?s (count_field r)) rs = map (\<lambda>n. Some (PInt n)) ms"
    by simp
  have cur: "attrs ?s ''actions_count'' = Some (PInt (a + n))"
    by (simp add: setattr_def)
  have "add_reaction_counts ?s rs = Inr (setattr ?s ''actions_count'' (PInt ((a + n) + sum_list ms)))"
    using Cons.IH [OF notin cur rest'] .
  moreover have "setattr ?s ''actions_count'' (PInt ((a + n) + sum_list ms))
      = setattr s ''actions_count'' (PInt (a + sum_list ns))"
    by (simp add: setattr_def ns add.assoc)
  ultimately show ?case
    using Cons.prems(2) here by (simp add: getattr_default_def)
qed

lemma py_or_guarded:
  "number_or_null (attrs s f) \<Longrightarrow> py_or (getattr_default s f) (PInt 0) = PInt (guarded_count s f)"
  by (auto simp: number_or_null_def py_or_def getattr_default_def guarded_count_def
      split: option.splits pyval.splits)

lemma sum_counts_total:
  assumes "map (\<lambda>r. attrs s (count_field r)) rs = map (\<lambda>n. Some (PInt n)) ns"
  shows "sum_counts s (PInt c) rs = Inr (PInt (c + sum_list ns))"
  using assms
proof (induction rs arbitrary: c ns)
  case Nil
  then show ?case by simp
next
  case (Cons r rs)
  from Cons.prems obtain n ms where ns: "ns = n # ms"
    and here: "attrs s (count_field r) = Some (PInt n)"
    and rest: "map (\<lambda>r. attrs s (count_field r)) rs = map (\<lambda>n. Some (PInt n)) ms"
    by (cases ns) auto
  show ?case
    using Cons.IH [OF rest, of "c + n"] here
    by (simp add: getattr_def ns add.assoc)
qed

lemma sum_counts_Inr:
  assumes "sum_counts s c rs = Inr c'"
  shows "\<forall>r\<in>set rs. \<exists>n. attrs s (count_field r) = Some (PInt n)"
  using assms
proof (induction rs arbitrary: c)
  case Nil
  then show ?case by simp
next
  case (Cons r rs)
  from Cons.prems obtain v c1 where
    v: "getattr s (count_field r) = Inr v" and a: "py_add c v = Inr c1"
    and rest: "sum_counts s c1 rs = Inr c'"
    by (auto split: sum.splits)
  from a obtain n where "v = PInt n" by (auto simp: py_add_Inr_iff)
  with v have "attrs s (count_field r) = Some (PInt n)"
    by (auto simp: getattr_def split: option.splits)
  with Cons.IH [OF rest] show ?case by auto
qed

lemma py_add_Inl: "py_add a b = Inl e \<Longrightarrow> e = TypeError"
  by (cases a; cases b) auto

lemma py_sum_Inl: "py_sum acc xs = Inl e \<Longrightarrow> e = TypeError"
  by (induction xs arbitrary: acc) (auto split: sum.splits dest: py_add_Inl)

lemma add_reaction_counts_Inl: "add_reaction_counts s rs = Inl e \<Longrightarrow> e = TypeError"
  by (induction rs arbitrary: s) (auto split: sum.splits dest: py_add_Inl)

lemma ActionableModelMixin_save_Inl:
  assumes "ActionableModelMixin_save s = Inl e"
  shows "e = TypeError"
proof (cases "py_sum (PInt 0)
      (map (\<lambda>field. py_or (getattr_default s field) (PInt 0))
           [''likes_count'', ''shares_count'', ''comments_count''])")
  case (Inl e')
  with assms have "e' = e"
    unfolding ActionableModelMixin_save_def by simp
  with Inl show ?thesis
    using py_sum_Inl by blast
next
  case (Inr subtotal)
  with assms have "add_reaction_counts (setattr s ''actions_count'' subtotal)
      [''love'', ''wow'', ''haha'', ''sad'', ''angry'', ''thankful''] = Inl e"
    unfolding ActionableModelMixin_save_def by simp
  then show ?thesis
    by (rule add_reaction_counts_Inl)
qed

lemma reaction_types_no_action: "''action'' \<notin> set reaction_types"
  by (simp add: reaction_types_def)

lemma save_reads_reaction_counts:
  assumes "ActionableModelMixin_save s = Inr s'"
  shows "\<forall>r\<in>set reaction_types. \<exists>n. attrs s (count_field r) = Some (PInt n)"
proof -
  from assms obtain subtotal where
    run: "add_reaction_counts (setattr s ''actions_count'' subtotal) reaction_types = Inr s'"
    by (auto simp: ActionableModelMixin_save_def reaction_types_def split: sum.splits)
  have "\<forall>r\<in>set reaction_types.
      \<exists>n. attrs (setattr s ''actions_count'' subtotal) (count_field r) = Some (PInt n)"
    using add_reaction_counts_Inr [OF reaction_types_no_action run] .
  moreover have "\<forall>r\<in>set reaction_types. count_field r \<noteq> ''actions_count''"
    by (simp add: reaction_types_def count_field_def)
  ultimately show ?thesis
    by (auto simp: setattr_def)
qed

lemma save_total:
  assumes guarded: "\<forall>f\<in>set [''likes_count'', ''shares_count'', ''comments_count''].
      number_or_null (attrs s f)"
    and six: "map (\<lambda>r. attrs s (count_field r)) reaction_types = map (\<lambda>n. Some (PInt n)) ns"
  shows "ActionableModelMixin_save s =
    Inr (setattr s ''actions_count''
          (PInt (guarded_count s ''likes_count'' + guarded_count s ''shares_count''
                 + guarded_count s ''comments_count'' + sum_list ns)))"
proof -
  let ?g = "guarded_count s ''likes_count'' + guarded_count s ''shares_count''
            + guarded_count s ''comments_count''"
  let ?s = "setattr s ''actions_count'' (PInt ?g)"
  have sum3: "py_sum (PInt 0)
      (map (\<lambda>field. py_or (getattr_default s field) (PInt 0))
           [''likes_count'', ''shares_count'', ''comments_count'']) = Inr (PInt ?g)"
    using guarded by (simp add: py_or_guarded)
  have "\<forall>r\<in>set reaction_types. count_field r \<noteq> ''actions_count''"
    by (simp add: reaction_types_def count_field_def)
  then have "map (\<lambda>r. attrs ?s (count_field r)) reaction_types
      = map (\<lambda>r. attrs s (count_field r)) reaction_types"
    by (intro map_cong) (auto simp: setattr_def)
  with six have six': "map (\<lambda>r. attrs ?s (count_field r)) reaction_types
      = map (\<lambda>n. Some (PInt n)) ns"
    by simp
  have cur: "attrs ?s ''actions_count'' = Some (PInt ?g)"
    by (simp add: setattr_def)
  have "add_reaction_counts ?s reaction_types
      = Inr (setattr ?s ''actions_count'' (PInt (?g + sum_list ns)))"
    using add_reaction_counts_total [OF reaction_types_no_action cur six'] .
  moreover have "setattr ?s ''actions_count'' (PInt (?g + sum_list ns))
      = setattr s ''actions_count'' (PInt (?g + sum_list ns))"
    by (simp add: setattr_def)
  ultimately show ?thesis
    using sum3 by (simp add: ActionableModelMixin_save_def reaction_types_def)
qed

text \<open>
  C10. \<^verbatim>\<open>ActionableModelMixin.save\<close> reads a missing or null \<^verbatim>\<open>likes_count\<close>,
  \<^verbatim>\<open>shares_count\<close> or \<^verbatim>\<open>comments_count\<close> as zero and adds the six reaction counts
  unguarded. If it completes, each of the six reaction count attributes exists and
  holds a number; if one of them is missing or not a number it raises
  (\<^verbatim>\<open>TypeError\<close>); and when the six are numbers (and the three guarded fields hold
  numbers or nothing) it completes with \<^verbatim>\<open>actions_count\<close> the sum of the nine,
  the guarded ones counted as zero where missing or null.
\<close>

theorem ActionableModelMixin_save_unguarded:
  "(ActionableModelMixin_save s = Inr s' \<longrightarrow>
      (\<forall>r\<in>set reaction_types. \<exists>n. attrs s (count_field r) = Some (PInt n)))
   \<and> ((\<exists>r\<in>set reaction_types. \<forall>n. attrs s (count_field r) \<noteq> Some (PInt n)) \<longrightarrow>
      ActionableModelMixin_save s = Inl TypeError)
   \<and> ((\<forall>f\<in>set [''likes_count'', ''shares_count'', ''comments_count''].
          number_or_null (attrs s f))
       \<and> map (\<lambda>r. attrs s (count_field r)) reaction_types = map (\<lambda>n. Some (PInt n)) ns \<longrightarrow>
      ActionableModelMixin_save s =
        Inr (setattr s ''actions_count''
              (PInt (guarded_count s ''likes_count'' + guarded_count s ''shares_count''
                     + guarded_count s ''comments_count'' + sum_list ns))))"
proof (intro conjI impI)
  assume "ActionableModelMixin_save s = Inr s'"
  then show "\<forall>r\<in>set reaction_types. \<exists>n. attrs s (count_field r) = Some (PInt n)"
    by (rule save_reads_reaction_counts)
next
  assume bad: "\<exists>r\<in>set reaction_types. \<forall>n. attrs s (count_field r) \<noteq> Some (PInt n)"
  show "ActionableModelMixin_save s = Inl TypeError"
  proof (cases "ActionableModelMixin_save s")
    case (Inl e)
    then show ?thesis using ActionableModelMixin_save_Inl by blast
  next
    case (Inr t)
    from save_reads_reaction_counts [OF Inr] bad show ?thesis by blast
  qed
next
  assume "(\<forall>f\<in>set [''likes_count'', ''shares_count'', ''comments_count''].
          number_or_null (attrs s f))
       \<and> map (\<lambda>r. attrs s (count_field r)) reaction_types = map (\<lambda>n. Some (PInt n)) ns"
  then show "ActionableModelMixin_save s =
        Inr (setattr s ''actions_count''
              (PInt (guarded_count s ''likes_count'' + guarded_count s ''shares_count''
                     + guarded_count s ''comments_count'' + sum_list ns)))"
    using save_total by blast
qed

text \<open>
  On the sample record the nine counts add up to 28 (the missing \<^verbatim>\<open>shares_count\<close> and the
  null \<^verbatim>\<open>comments_count\<close> counted as zero); with a null reaction count the call raises.
\<close>

theorem ActionableModelMixin_save_unguarded_witness:
  "ActionableModelMixin_save counted_post = Inr (setattr counted_post ''actions_count'' (PInt 28))
   \<and> ActionableModelMixin_save null_count_post = Inl TypeError"
proof -
  have g: "\<forall>f\<in>set [''likes_count'', ''shares_count'', ''comments_count''].
      number_or_null (attrs counted_post f)"
    by (simp add: counted_post_def number_or_null_def)
  have six: "map (\<lambda>r. attrs counted_post (count_field r)) reaction_types
      = map (\<lambda>n. Some (PInt n)) [1, 2, 3, 4, 5, 6]"
    by (simp add: counted_post_def reaction_types_def count_field_def)
  have run: "ActionableModelMixin_save counted_post =
      Inr (setattr counted_post ''actions_count''
            (PInt (guarded_count counted_post ''likes_count''
                   + guarded_count counted_post ''shares_count''
                   + guarded_count counted_post ''comments_count'' + sum_list [1, 2, 3, 4, 5, 6])))"
    using ActionableModelMixin_save_unguarded [of counted_post counted_post "[1, 2, 3, 4, 5, 6]"] g six
    by blast
  have eq: "guarded_count counted_post ''likes_count''
                   + guarded_count counted_post ''shares_count''
                   + guarded_count counted_post ''comments_count'' + sum_list [1, 2, 3, 4, 5, 6] = 28"
    by (simp add: guarded_count_def counted_post_def)
  have "ActionableModelMixin_save counted_post
      = Inr (setattr counted_post ''actions_count'' (PInt 28))"
    using run unfolding eq .
  moreover have bad: "\<exists>r\<in>set reaction_types. \<forall>n. attrs null_count_post (count_field r) \<noteq> Some (PInt n)"
    by (simp add: null_count_post_def counted_post_def setattr_def reaction_types_def count_field_def)
  moreover have "ActionableModelMixin_save null_count_post = Inl TypeError"
    using ActionableModelMixin_save_unguarded [of null_count_post null_count_post "[]"] bad
    by blast
  ultimately show ?thesis by blast
qed

text \<open>
  C5, as the code has it. When the six reaction counts and the likes count of a
  record are all numbers, \<^verbatim>\<open>count_reactions\<close> sets \<^verbatim>\<open>reactions_count\<close> to their sum
  and then saves the record. When one of the seven is missing or null it raises
  before anything is assigned or saved.
\<close>

theorem count_reactions_sum:
  "(map (\<lambda>r. attrs s (count_field r)) (reaction_types @ [''like'']) = map (\<lambda>n. Some (PInt n)) ns \<longrightarrow>
      count_reactions save_method s
        = save_method (setattr s ''reactions_count'' (PInt (sum_list ns))))
   \<and> ((\<exists>r\<in>set (reaction_types @ [''like'']). \<forall>n. attrs s (count_field r) \<noteq> Some (PInt n)) \<longrightarrow>
      (\<exists>e. sum_counts s (PInt 0) (reaction_types @ [''like'']) = Inl e
           \<and> count_reactions save_method s = Inl e))"
proof (intro conjI impI)
  assume "map (\<lambda>r. attrs s (count_field r)) (reaction_types @ [''like'']) = map (\<lambda>n. Some (PInt n)) ns"
  from sum_counts_total [OF this, of 0]
  show "count_reactions save_method s
        = save_method (setattr s ''reactions_count'' (PInt (sum_list ns)))"
    by (simp add: count_reactions_def)
next
  assume bad: "\<exists>r\<in>set (reaction_types @ [''like'']). \<forall>n. attrs s (count_field r) \<noteq> Some (PInt n)"
  show "\<exists>e. sum_counts s (PInt 0) (reaction_types @ [''like'']) = Inl e
           \<and> count_reactions save_method s = Inl e"
  proof (cases "sum_counts s (PInt 0) (reaction_types @ [''like''])")
    case (Inl e)
    then show ?thesis by (simp add: count_reactions_def)
  next
    case (Inr c)
    from sum_counts_Inr [OF Inr] bad show ?thesis by blast
  qed
qed

text \<open>
  On the sample record the sum is 28; on the record with a null count the call raises.
\<close>

theorem count_reactions_sum_witness:
  "count_reactions model_save counted_post
     = Inr (setattr counted_post ''reactions_count'' (PInt 28))
   \<and> (\<exists>e. sum_counts null_count_post (PInt 0) (reaction_types @ [''like'']) = Inl e
          \<and> count_reactions model_save null_count_post = Inl e)"
proof -
  have "map (\<lambda>r. attrs counted_post (count_field r)) (reaction_types @ [''like''])
      = map (\<lambda>n. Some (PInt n)) [1, 2, 3, 4, 5, 6, 7]"
    by (simp add: counted_post_def reaction_types_def count_field_def)
  with count_reactions_sum [of counted_post "[1, 2, 3, 4, 5, 6, 7]" model_save]
  have "count_reactions model_save counted_post
      = model_save (setattr counted_post ''reactions_count'' (PInt (sum_list [1, 2, 3, 4, 5, 6, 7])))"
    by blast
  then have sum: "count_reactions model_save counted_post
     = Inr (setattr counted_post ''reactions_count'' (PInt 28))"
    by (simp add: model_save_def)
  have "\<exists>r\<in>set (reaction_types @ [''like'']). \<forall>n. attrs null_count_post (count_field r) \<noteq> Some (PInt n)"
    by (simp add: null_count_post_def counted_post_def setattr_def reaction_types_def count_field_def)
  with count_reactions_sum [of null_count_post "[]" model_save]
  have "\<exists>e. sum_counts null_count_post (PInt 0) (reaction_types @ [''like'']) = Inl e
          \<and> count_reactions model_save null_count_post = Inl e"
    by blast
  with sum show ?thesis by blast
qed

text \<open>
  C5 as stated fails on a record with a null count (the count fields are declared
  \<^verbatim>\<open>null=True\<close>): nothing is summed or saved, the call raises.
\<close>

theorem count_reactions_null_counterexample:
  "count_reactions model_save null_count_post = Inl TypeError"
  by (simp add: count_reactions_def null_count_post_def counted_post_def setattr_def
      reaction_types_def count_field_def getattr_def)

section \<open>Properties of the share reconciliation\<close>

lemma fetch_shares_Some:
  assumes "api_call env (self_graph_id self @ ''/sharedposts'') None kw = Some r"
    and "fetch_shares env d self kw = Inr (d', us, resp)"
  shows "\<exists>ps ids pairs.
      timestamp_pairs env (shares_posts r) = Inr ps
      \<and> shares_loop env (ids_add (ids_new ps) (ids_current d self)) (shares_posts r) [] [] = Inr (ids, pairs)
      \<and> d' = d\<lparr>through := delete_old_shares self pairs (through d) @ new_shares self (timestamps ps) pairs\<rparr>
      \<and> us = User_objects_filter ids \<and> resp = Some r"
  using assms by (auto simp: fetch_shares_def Let_def split: sum.splits prod.splits)

lemma shares_loop_mono:
  "shares_loop env add posts ids pairs = Inr (ids', pairs') \<Longrightarrow> set pairs \<subseteq> set pairs'"
proof (induction posts arbitrary: ids pairs)
  case Nil
  then show ?case by simp
next
  case (Cons post posts)
  then show ?case
    by (fastforce split: sum.splits if_splits)
qed

lemma shares_loop_sound:
  "shares_loop env add posts ids pairs = Inr (ids', pairs') \<Longrightarrow> (g, p) \<in> set pairs' \<Longrightarrow>
   (g, p) \<in> set pairs \<or> (g \<in> add \<and> (\<exists>post\<in>set posts. \<exists>u. resolves env post g u \<and> p = pk u))"
proof (induction posts arbitrary: ids pairs)
  case Nil
  then show ?case by simp
next
  case (Cons post posts)
  show ?case
  proof (cases "post_graph_id post")
    case (Inl e)
    with Cons.prems show ?thesis by simp
  next
    case (Inr h)
    show ?thesis
    proof (cases "keys_id_name (post_from post)")
      case False
      with Inr Cons.prems have "shares_loop env add posts ids pairs = Inr (ids', pairs')" by simp
      from Cons.IH [OF this Cons.prems(2)] show ?thesis by auto
    next
      case True
      show ?thesis
      proof (cases "get_or_create_from_small_resource env (post_from post)")
        case (Inl e)
        with Inr True Cons.prems have "shares_loop env add posts ids pairs = Inr (ids', pairs')"
          by (simp split: if_splits)
        from Cons.IH [OF this Cons.prems(2)] show ?thesis by auto
      next
        case (Inr u)
        let ?pairs = "if h \<in> add \<and> h \<notin> set (map fst pairs) then pairs @ [(h, pk u)] else pairs"
        from Inr True \<open>post_graph_id post = Inr h\<close> Cons.prems
        have run: "shares_loop env add posts (ids @ [pk u]) ?pairs = Inr (ids', pairs')"
          by simp
        from Cons.IH [OF run Cons.prems(2)]
        have "(g, p) \<in> set ?pairs \<or> (g \<in> add \<and> (\<exists>post\<in>set posts. \<exists>u. resolves env post g u \<and> p = pk u))" .
        moreover have "resolves env post h u"
          using Inr True \<open>post_graph_id post = Inr h\<close> by (simp add: resolves_def)
        ultimately show ?thesis
          by (auto split: if_splits)
      qed
    qed
  qed
qed

lemma shares_loop_complete:
  "shares_loop env add posts ids pairs = Inr (ids', pairs') \<Longrightarrow> post \<in> set posts \<Longrightarrow>
   resolves env post g u \<Longrightarrow> g \<in> add \<Longrightarrow> g \<in> fst ` set pairs'"
proof (induction posts arbitrary: ids pairs)
  case Nil
  then show ?case by simp
next
  case (Cons q posts)
  show ?case
  proof (cases "post = q")
    case True
    let ?pairs = "if g \<in> add \<and> g \<notin> set (map fst pairs) then pairs @ [(g, pk u)] else pairs"
    from True Cons.prems(1,3)
    have run: "shares_loop env add posts (ids @ [pk u]) ?pairs = Inr (ids', pairs')"
      by (simp add: resolves_def)
    have "g \<in> fst ` set ?pairs"
      using Cons.prems(4) by auto
    with shares_loop_mono [OF run] show ?thesis by auto
  next
    case False
    with Cons.prems(2) have mem: "post \<in> set posts" by simp
    from Cons.prems(1) obtain ids1 pairs1 where
      "shares_loop env add posts ids1 pairs1 = Inr (ids', pairs')"
      by (auto split: sum.splits if_splits)
    from Cons.IH [OF this mem Cons.prems(3,4)] show ?thesis .
  qed
qed

lemma timestamp_pairs_ids:
  "timestamp_pairs env posts = Inr ps \<Longrightarrow>
   fst ` set ps = {g. \<exists>post\<in>set posts. post_graph_id post = Inr g}"
proof (induction posts arbitrary: ps)
  case Nil
  then show ?case by simp
next
  case (Cons post posts)
  from Cons.prems obtain g t qs where g: "post_graph_id post = Inr g"
    and qs: "timestamp_pairs env posts = Inr qs" and ps: "ps = (g, t) # qs"
    by (auto split: sum.splits)
  from Cons.IH [OF qs] g ps show ?case by auto
qed

lemma dom_timestamps: "dom (timestamps ps) = fst ` set ps"
  by (simp add: timestamps_def dom_map_of_conv_image_fst)

lemma ids_add_stamped:
  assumes "g \<in> ids_add (ids_new ps) current"
  shows "\<exists>t. timestamps ps g = Some t"
proof -
  from assms have "g \<in> fst ` set ps"
    by (auto simp: ids_add_def ids_new_def)
  then have "g \<in> dom (timestamps ps)"
    by (simp add: dom_timestamps)
  then show ?thesis by auto
qed

lemma new_shares_member:
  "e \<in> set (new_shares self ts pairs) \<longleftrightarrow>
     (\<exists>(g, p)\<in>set pairs. e = \<lparr>obj_id = self_pk self, user_id = p,
        time_from = get_share_date self ts g, time_to = None\<rparr>)"
  by (auto simp: new_shares_def)

lemma delete_old_shares_member:
  "e \<in> set (delete_old_shares self pairs es) \<longleftrightarrow>
     e \<in> set es \<and> \<not> (obj_id e = self_pk self \<and> (time_from e = None \<or> user_id e \<in> snd ` set pairs))"
  by (auto simp: delete_old_shares_def)

lemmas sample_defs = sample_env_def shares_page_def shares_posts_def share_ann_def share_shop_def
  share_anonymous_def post_graph_id_def post_created_time_def digit_of_def digits_def strip_def is_space_def
  ids_current_def get_query_set_def get_query_set_through_def sample_db_def counted_post_def
  ended_share_def current_share_def unstamped_share_def foreign_share_def ann_share_def
  ids_add_def ids_new_def ids_remove_def keys_id_name_def post_from_def sample_get_or_create_def
  User_objects_filter_def delete_old_shares_def new_shares_def get_share_date_def timestamps_def

lemma sample_api:
  "api_call (sample_env page) (self_graph_id counted_post @ ''/sharedposts'') None None = Some page"
  by (simp add: sample_env_def)

lemma sample_timestamp_pairs:
  "timestamp_pairs (sample_env shares_page) (shares_posts shares_page) = Inr [(100, 20), (300, 30)]"
  by (simp add: sample_defs)

lemma sample_ids_current: "ids_current sample_db counted_post = [200]"
  by (simp add: sample_defs)

lemma sample_fetch_shares:
  "fetch_shares (sample_env shares_page) sample_db counted_post None
     = Inr (sample_db\<lparr>through := [current_share, foreign_share, ann_share]\<rparr>, [10], Some shares_page)"
  by (simp add: fetch_shares_def sample_defs)

lemma sample_resolves:
  "resolves (sample_env shares_page) share_ann 100 \<lparr>pk = 10, graph_id = 100\<rparr>"
  by (simp add: resolves_def sample_defs)

lemma shares_loop_distinct:
  "shares_loop env add posts ids pairs = Inr (ids', pairs') \<Longrightarrow> distinct (map fst pairs) \<Longrightarrow>
   distinct (map fst pairs')"
proof (induction posts arbitrary: ids pairs)
  case Nil
  then show ?case by simp
next
  case (Cons post posts)
  from Cons.prems(1) obtain ids1 pairs1 where
    run: "shares_loop env add posts ids1 pairs1 = Inr (ids', pairs')"
    and step: "pairs1 = pairs \<or> (\<exists>g p. g \<notin> set (map fst pairs) \<and> pairs1 = pairs @ [(g, p)])"
    by (auto split: sum.splits if_splits)
  from step Cons.prems(2) have "distinct (map fst pairs1)" by auto
  from Cons.IH [OF run this] show ?case .
qed

lemma not_resolves_skipped:
  assumes "\<not> keys_id_name (post_from q)
      \<or> (\<exists>e. get_or_create_from_small_resource env (post_from q) = Inl e)"
  shows "\<not> resolves env q g v"
  using assms by (auto simp: resolves_def)

lemma shares_loop_first:
  "shares_loop env add posts ids pairs = Inr (ids', pairs') \<Longrightarrow> (g, p) \<in> set pairs' \<Longrightarrow>
   (g, p) \<in> set pairs
   \<or> (g \<notin> fst ` set pairs \<and> g \<in> add
       \<and> (\<exists>xs post ys u. posts = xs @ post # ys \<and> resolves env post g u \<and> p = pk u
              \<and> (\<forall>q\<in>set xs. \<forall>v. \<not> resolves env q g v)))"
proof (induction posts arbitrary: ids pairs)
  case Nil
  then show ?case by simp
next
  case (Cons q posts)
  show ?case
  proof (cases "post_graph_id q")
    case (Inl e)
    with Cons.prems show ?thesis by simp
  next
    case (Inr h)
    show ?thesis
    proof (cases "keys_id_name (post_from q)
        \<and> (\<exists>u. get_or_create_from_small_resource env (post_from q) = Inr u)")
      case False
      then have skipped: "\<not> keys_id_name (post_from q)
          \<or> (\<exists>e. get_or_create_from_small_resource env (post_from q) = Inl e)"
        by (cases "get_or_create_from_small_resource env (post_from q)") auto
      from False Inr Cons.prems(1) have run: "shares_loop env add posts ids pairs = Inr (ids', pairs')"
        by (auto split: sum.splits if_splits)
      from Cons.IH [OF run Cons.prems(2)] show ?thesis
      proof
        assume "(g, p) \<in> set pairs"
        then show ?thesis by simp
      next
        assume "g \<notin> fst ` set pairs \<and> g \<in> add
          \<and> (\<exists>xs post ys u. posts = xs @ post # ys \<and> resolves env post g u \<and> p = pk u
                \<and> (\<forall>q\<in>set xs. \<forall>v. \<not> resolves env q g v))"
        then obtain xs post ys u where new: "g \<notin> fst ` set pairs" "g \<in> add"
          and split: "posts = xs @ post # ys" "resolves env post g u" "p = pk u"
          and first: "\<forall>q\<in>set xs. \<forall>v. \<not> resolves env q g v"
          by blast
        from split(1) have "q # posts = (q # xs) @ post # ys" by simp
        moreover from first not_resolves_skipped [OF skipped]
        have "\<forall>q'\<in>set (q # xs). \<forall>v. \<not> resolves env q' g v" by simp
        ultimately show ?thesis
          using new split(2,3) by blast
      qed
    next
      case True
      then obtain u where keys: "keys_id_name (post_from q)"
        and u: "get_or_create_from_small_resource env (post_from q) = Inr u"
        by blast
      let ?pairs = "if h \<in> add \<and> h \<notin> set (map fst pairs) then pairs @ [(h, pk u)] else pairs"
      from Inr keys u Cons.prems(1)
      have run: "shares_loop env add posts (ids @ [pk u]) ?pairs = Inr (ids', pairs')"
        by simp
      have here: "resolves env q h u"
        using Inr keys u by (simp add: resolves_def)
      from Cons.IH [OF run Cons.prems(2)] show ?thesis
      proof
        assume mem: "(g, p) \<in> set ?pairs"
        show ?thesis
        proof (cases "(g, p) \<in> set pairs")
          case True
          then show ?thesis by simp
        next
          case False
          with mem have eq: "g = h" "p = pk u" and h: "h \<in> add" "h \<notin> set (map fst pairs)"
            by (auto split: if_splits)
          have "q # posts = [] @ q # posts" by simp
          moreover have "\<forall>q'\<in>set []. \<forall>v. \<not> resolves env q' g v" by simp
          ultimately have "\<exists>xs post ys u. q # posts = xs @ post # ys \<and> resolves env post g u
              \<and> p = pk u \<and> (\<forall>q\<in>set xs. \<forall>v. \<not> resolves env q g v)"
            using here eq by blast
          with eq h show ?thesis by simp
        qed
      next
        assume "g \<notin> fst ` set ?pairs \<and> g \<in> add
          \<and> (\<exists>xs post ys u. posts = xs @ post # ys \<and> resolves env post g u \<and> p = pk u
                \<and> (\<forall>q\<in>set xs. \<forall>v. \<not> resolves env q g v))"
        then obtain xs post ys w where new: "g \<notin> fst ` set ?pairs" "g \<in> add"
          and split: "posts = xs @ post # ys" "resolves env post g w" "p = pk w"
          and first: "\<forall>q\<in>set xs. \<forall>v. \<not> resolves env q g v"
          by blast
        from new have fresh: "g \<notin> fst ` set pairs"
          by (auto split: if_splits)
        have "g \<noteq> h"
        proof
          assume "g = h"
          with new fresh show False by (auto split: if_splits)
        qed
        with Inr have "\<forall>v. \<not> resolves env q g v"
          by (auto simp: resolves_def)
        with first have "\<forall>q'\<in>set (q # xs). \<forall>v. \<not> resolves env q' g v" by simp
        moreover from split(1) have "q # posts = (q # xs) @ post # ys" by simp
        ultimately show ?thesis
          using fresh new(2) split(2,3) by blast
      qed
    qed
  qed
qed

lemma timestamp_pairs_all2:
  "timestamp_pairs env posts = Inr ps \<Longrightarrow>
   list_all2 (\<lambda>post gt. post_graph_id post = Inr (fst gt) \<and> post_created_time env post = Inr (snd gt))
     posts ps"
proof (induction posts arbitrary: ps)
  case Nil
  then show ?case by simp
next
  case (Cons post posts)
  from Cons.prems obtain g t qs where "post_graph_id post = Inr g"
    "post_created_time env post = Inr t"
    and qs: "timestamp_pairs env posts = Inr qs" and ps: "ps = (g, t) # qs"
    by (auto split: sum.splits)
  with Cons.IH [OF qs] show ?case by simp
qed

lemma list_all2_right_member:
  "list_all2 P xs ys \<Longrightarrow> y \<in> set ys \<Longrightarrow> \<exists>x\<in>set xs. P x y"
  by (induction rule: list_all2_induct) auto

lemma timestamps_last:
  assumes ps: "timestamp_pairs env posts = Inr ps"
    and split: "posts = xs @ post # ys"
    and g: "post_graph_id post = Inr g"
    and last: "\<forall>q\<in>set ys. post_graph_id q \<noteq> Inr g"
  shows "\<exists>t. post_created_time env post = Inr t \<and> timestamps ps g = Some t"
proof -
  let ?P = "\<lambda>post gt. post_graph_id post = Inr (fst gt) \<and> post_created_time env post = Inr (snd gt)"
  from timestamp_pairs_all2 [OF ps] split have "list_all2 ?P (xs @ post # ys) ps" by simp
  then obtain p1 rest where ps1: "ps = p1 @ rest" and "list_all2 ?P (post # ys) rest"
    by (auto simp: list_all2_append1)
  then obtain gt p2 where rest: "rest = gt # p2" and here: "?P post gt" and tail: "list_all2 ?P ys p2"
    by (auto simp: list_all2_Cons1)
  from here g have fst: "fst gt = g" by simp
  have "g \<notin> fst ` set p2"
  proof
    assume "g \<in> fst ` set p2"
    then obtain y where y: "y \<in> set p2" "fst y = g" by auto
    from list_all2_right_member [OF tail y(1)] y(2) last show False by auto
  qed
  then have none: "map_of (rev p2) g = None"
    by (simp add: map_of_eq_None_iff)
  have "timestamps ps g = map_of (rev p2 @ gt # rev p1) g"
    by (simp add: timestamps_def ps1 rest)
  also have "\<dots> = Some (snd gt)"
    using none fst by (cases gt) (simp add: map_of_append map_add_def)
  finally show ?thesis
    using here by auto
qed

lemma last_post_of:
  assumes ps: "timestamp_pairs env posts = Inr ps" and g: "g \<in> fst ` set ps"
  shows "\<exists>xs post ys t. posts = xs @ post # ys \<and> post_graph_id post = Inr g
      \<and> post_created_time env post = Inr t \<and> (\<forall>q\<in>set ys. post_graph_id q \<noteq> Inr g)
      \<and> timestamps ps g = Some t"
proof -
  from g timestamp_pairs_ids [OF ps] have "\<exists>post\<in>set posts. post_graph_id post = Inr g"
    by auto
  from split_list_last_prop [OF this] obtain xs post ys where
    split: "posts = xs @ post # ys" and here: "post_graph_id post = Inr g"
    and last: "\<forall>q\<in>set ys. post_graph_id q \<noteq> Inr g"
    by blast
  from timestamps_last [OF ps split here last] split here last show ?thesis by blast
qed

lemma fetch_shares_pairs:
  assumes api: "api_call env (self_graph_id self @ ''/sharedposts'') None kw = Some r"
    and run: "fetch_shares env d self kw = Inr (d', us, resp)"
  shows "\<exists>ps ids pairs.
      timestamp_pairs env (shares_posts r) = Inr ps
      \<and> shares_loop env (ids_add (ids_new ps) (ids_current d self)) (shares_posts r) [] []
          = Inr (ids, pairs)
      \<and> through d' = delete_old_shares self pairs (through d) @ new_shares self (timestamps ps) pairs
      \<and> us = User_objects_filter ids
      \<and> distinct (map fst pairs)
      \<and> ids_add (ids_new ps) (ids_current d self)
          = {g. \<exists>post\<in>set (shares_posts r). post_graph_id post = Inr g} - set (ids_current d self)"
proof -
  from fetch_shares_Some [OF api run] obtain ps ids pairs where
    ps: "timestamp_pairs env (shares_posts r) = Inr ps"
    and loop: "shares_loop env (ids_add (ids_new ps) (ids_current d self)) (shares_posts r) [] []
        = Inr (ids, pairs)"
    and d': "d' = d\<lparr>through := delete_old_shares self pairs (through d)
        @ new_shares self (timestamps ps) pairs\<rparr>"
    and us: "us = User_objects_filter ids"
    by blast
  have "distinct (map fst pairs)"
    using shares_loop_distinct [OF loop] by simp
  moreover have "ids_add (ids_new ps) (ids_current d self)
      = {g. \<exists>post\<in>set (shares_posts r). post_graph_id post = Inr g} - set (ids_current d self)"
    using timestamp_pairs_ids [OF ps] by (simp add: ids_add_def ids_new_def)
  ultimately show ?thesis
    using ps loop d' us by auto
qed

lemmas more_samples = share_ann_later_def twice_page_def ann_later_share_def silent_env_def
  share_ann_as_page_def masked_page_def ann_page_def likes_page_def

lemma sample_twice:
  "fetch_shares (sample_env twice_page) sample_db counted_post None
     = Inr (sample_db\<lparr>through := [current_share, foreign_share, ann_later_share]\<rparr>, [10],
            Some twice_page)"
  by (simp add: fetch_shares_def more_samples sample_defs)

lemma sample_silent:
  "fetch_shares silent_env sample_db counted_post None = Inr (sample_db, [], None)"
  by (simp add: fetch_shares_def silent_env_def User_objects_filter_def)

lemma sample_masked:
  "fetch_shares (sample_env masked_page) sample_db counted_post None
     = Inr (sample_db\<lparr>through := [current_share, foreign_share, ann_later_share]\<rparr>, [10],
            Some masked_page)"
  by (simp add: fetch_shares_def more_samples sample_defs)

lemma sample_ann:
  "fetch_shares (sample_env ann_page) sample_db counted_post None
     = Inr (sample_db\<lparr>through := [current_share, foreign_share, ann_share]\<rparr>, [10], Some ann_page)"
  by (simp add: fetch_shares_def more_samples sample_defs)

text \<open>
  C1, as the code has it. On a non-empty remote page the rows of the record after
  \<^verbatim>\<open>fetch_shares\<close> are what the two deletions leave, followed by one new row for each
  pair of \<^verbatim>\<open>ids_add_pairs\<close>. The remote ids of the pairs are, each once, exactly the ids
  of the addition set (the remote user ids, those of the posts with an author, minus
  the locally current user ids) that some post resolves to (its author has exactly
  the keys \<^verbatim>\<open>id\<close> and \<^verbatim>\<open>name\<close> and the helper returns a user). The user of a pair is the
  one the first such post resolves to, and the new row is open-ended and stamped
  with the parsed \<^verbatim>\<open>created_time\<close> of the last post of the page with that author id.
\<close>

theorem fetch_shares_additions:
  assumes api: "api_call env (self_graph_id self @ ''/sharedposts'') None kw = Some r"
    and run: "fetch_shares env d self kw = Inr (d', us, resp)"
  shows "\<exists>ps pairs.
      timestamp_pairs env (shares_posts r) = Inr ps
      \<and> through d' = delete_old_shares self pairs (through d) @ new_shares self (timestamps ps) pairs
      \<and> distinct (map fst pairs)
      \<and> fst ` set pairs
          = {g. g \<in> {g. \<exists>post\<in>set (shares_posts r). post_graph_id post = Inr g}
                     - set (ids_current d self)
                \<and> (\<exists>post\<in>set (shares_posts r). \<exists>u. resolves env post g u)}
      \<and> (\<forall>(g, p)\<in>set pairs.
            (\<exists>xs post ys u. shares_posts r = xs @ post # ys \<and> resolves env post g u \<and> p = pk u
                \<and> (\<forall>q\<in>set xs. \<forall>v. \<not> resolves env q g v))
            \<and> (\<exists>xs post ys t. shares_posts r = xs @ post # ys \<and> post_graph_id post = Inr g
                \<and> post_created_time env post = Inr t \<and> (\<forall>q\<in>set ys. post_graph_id q \<noteq> Inr g)
                \<and> \<lparr>obj_id = self_pk self, user_id = p, time_from = Some t, time_to = None\<rparr>
                     \<in> set (through d')))"
proof -
  from fetch_shares_pairs [OF api run] obtain ps ids pairs where
    ps: "timestamp_pairs env (shares_posts r) = Inr ps"
    and loop: "shares_loop env (ids_add (ids_new ps) (ids_current d self)) (shares_posts r) [] []
        = Inr (ids, pairs)"
    and d': "through d' = delete_old_shares self pairs (through d)
        @ new_shares self (timestamps ps) pairs"
    and dist: "distinct (map fst pairs)"
    and add: "ids_add (ids_new ps) (ids_current d self)
        = {g. \<exists>post\<in>set (shares_posts r). post_graph_id post = Inr g} - set (ids_current d self)"
    by blast
  let ?add = "{g. \<exists>post\<in>set (shares_posts r). post_graph_id post = Inr g} - set (ids_current d self)"
  note loop' = loop [unfolded add]
  have keys: "fst ` set pairs = {g. g \<in> ?add \<and> (\<exists>post\<in>set (shares_posts r). \<exists>u. resolves env post g u)}"
  proof (intro set_eqI iffI)
    fix g
    assume "g \<in> fst ` set pairs"
    then obtain p where "(g, p) \<in> set pairs" by auto
    from shares_loop_sound [OF loop' this]
    show "g \<in> {g. g \<in> ?add \<and> (\<exists>post\<in>set (shares_posts r). \<exists>u. resolves env post g u)}"
      by auto
  next
    fix g
    assume "g \<in> {g. g \<in> ?add \<and> (\<exists>post\<in>set (shares_posts r). \<exists>u. resolves env post g u)}"
    then obtain post u where "g \<in> ?add" "post \<in> set (shares_posts r)" "resolves env post g u"
      by blast
    from shares_loop_complete [OF loop' this(2,3,1)] show "g \<in> fst ` set pairs" .
  qed
  have each: "(\<exists>xs post ys u. shares_posts r = xs @ post # ys \<and> resolves env post g u \<and> p = pk u
                \<and> (\<forall>q\<in>set xs. \<forall>v. \<not> resolves env q g v))
            \<and> (\<exists>xs post ys t. shares_posts r = xs @ post # ys \<and> post_graph_id post = Inr g
                \<and> post_created_time env post = Inr t \<and> (\<forall>q\<in>set ys. post_graph_id q \<noteq> Inr g)
                \<and> \<lparr>obj_id = self_pk self, user_id = p, time_from = Some t, time_to = None\<rparr>
                     \<in> set (through d'))"
    if gp: "(g, p) \<in> set pairs" for g p
  proof -
    from shares_loop_first [OF loop' gp]
    have first: "\<exists>xs post ys u. shares_posts r = xs @ post # ys \<and> resolves env post g u \<and> p = pk u
                \<and> (\<forall>q\<in>set xs. \<forall>v. \<not> resolves env q g v)"
      and g: "g \<in> ?add"
      by auto
    from g timestamp_pairs_ids [OF ps] have "g \<in> fst ` set ps" by auto
    from last_post_of [OF ps this] obtain xs post ys t where
      last: "shares_posts r = xs @ post # ys" "post_graph_id post = Inr g"
        "post_created_time env post = Inr t" "\<forall>q\<in>set ys. post_graph_id q \<noteq> Inr g"
      and t: "timestamps ps g = Some t"
      by blast
    have "\<lparr>obj_id = self_pk self, user_id = p, time_from = get_share_date self (timestamps ps) g,
        time_to = None\<rparr> \<in> set (new_shares self (timestamps ps) pairs)"
      using gp by (auto simp: new_shares_member)
    then have "\<lparr>obj_id = self_pk self, user_id = p, time_from = Some t, time_to = None\<rparr>
        \<in> set (through d')"
      by (simp add: d' get_share_date_def t)
    with last first show ?thesis by blast
  qed
  from ps d' dist keys each show ?thesis by blast
qed

text \<open>
  The run on the page with two shares of Ann and one of a shop: one pair, for Ann,
  stamped with the time of her later post.
\<close>

theorem fetch_shares_additions_witness:
  "\<exists>ps pairs.
      timestamp_pairs (sample_env twice_page) (shares_posts twice_page) = Inr ps
      \<and> [current_share, foreign_share, ann_later_share]
          = delete_old_shares counted_post pairs (through sample_db)
            @ new_shares counted_post (timestamps ps) pairs
      \<and> distinct (map fst pairs)
      \<and> fst ` set pairs
          = {g. g \<in> {g. \<exists>post\<in>set (shares_posts twice_page). post_graph_id post = Inr g}
                     - set (ids_current sample_db counted_post)
                \<and> (\<exists>post\<in>set (shares_posts twice_page). \<exists>u. resolves (sample_env twice_page) post g u)}
      \<and> (\<forall>(g, p)\<in>set pairs.
            (\<exists>xs post ys u. shares_posts twice_page = xs @ post # ys
                \<and> resolves (sample_env twice_page) post g u \<and> p = pk u
                \<and> (\<forall>q\<in>set xs. \<forall>v. \<not> resolves (sample_env twice_page) q g v))
            \<and> (\<exists>xs post ys t. shares_posts twice_page = xs @ post # ys \<and> post_graph_id post = Inr g
                \<and> post_created_time (sample_env twice_page) post = Inr t
                \<and> (\<forall>q\<in>set ys. post_graph_id q \<noteq> Inr g)
                \<and> \<lparr>obj_id = self_pk counted_post, user_id = p, time_from = Some t, time_to = None\<rparr>
                     \<in> set [current_share, foreign_share, ann_later_share]))"
  using fetch_shares_additions [OF sample_api sample_twice] by simp

text \<open>
  C1 as stated fails on the sample page. The author 300 is in the addition set, but
  carries a \<^verbatim>\<open>category\<close> key and gains no edge: the users with an edge afterwards are
  10 and 20. The remote id 200 is in the removal set and the edge of its user 20 is
  still there, as it was.
\<close>

theorem fetch_shares_additions_counterexample:
  "fetch_shares (sample_env shares_page) sample_db counted_post None
     = Inr (sample_db\<lparr>through := [current_share, foreign_share, ann_share]\<rparr>, [10], Some shares_page)
   \<and> timestamp_pairs (sample_env shares_page) (shares_posts shares_page) = Inr [(100, 20), (300, 30)]
   \<and> ids_current sample_db counted_post = [200]
   \<and> 300 \<in> ids_add (ids_new [(100, 20), (300, 30)]) [200]
   \<and> user_id ` set [current_share, foreign_share, ann_share] = {10, 20}
   \<and> 200 \<in> ids_remove (ids_new [(100, 20), (300, 30)]) [200]
   \<and> current_share \<in> set (through sample_db)
   \<and> current_share \<in> set [current_share, foreign_share, ann_share]"
  using sample_fetch_shares sample_timestamp_pairs sample_ids_current
  by (auto simp: ids_add_def ids_new_def ids_remove_def sample_db_def current_share_def
      foreign_share_def ann_share_def)

text \<open>
  C2, as the code has it. An edge that a run of \<^verbatim>\<open>fetch_shares\<close> removes belongs to
  the record, and it has no start time or belongs to a user the run adds: a user
  that a post with a remote id of the addition set resolves to, and who has a new
  open-ended, stamped edge of the record after the run. Every other edge stays: the
  edges of other records and the edges with a start time of users the run does not
  add.
\<close>

theorem fetch_shares_deletes:
  assumes run: "fetch_shares env d self kw = Inr (d', us, resp)"
  shows "\<forall>e\<in>set (through d). e \<notin> set (through d') \<longrightarrow>
      obj_id e = self_pk self
      \<and> (time_from e = None
         \<or> (\<exists>r. api_call env (self_graph_id self @ ''/sharedposts'') None kw = Some r
               \<and> (\<exists>post\<in>set (shares_posts r). \<exists>g u. resolves env post g u
                     \<and> g \<in> {g. \<exists>post\<in>set (shares_posts r). post_graph_id post = Inr g}
                            - set (ids_current d self)
                     \<and> user_id e = pk u)
               \<and> (\<exists>e'\<in>set (through d'). obj_id e' = self_pk self \<and> user_id e' = user_id e
                     \<and> time_to e' = None \<and> time_from e' \<noteq> None)))"
proof (intro ballI impI)
  fix e
  assume e: "e \<in> set (through d)" and gone: "e \<notin> set (through d')"
  show "obj_id e = self_pk self
      \<and> (time_from e = None
         \<or> (\<exists>r. api_call env (self_graph_id self @ ''/sharedposts'') None kw = Some r
               \<and> (\<exists>post\<in>set (shares_posts r). \<exists>g u. resolves env post g u
                     \<and> g \<in> {g. \<exists>post\<in>set (shares_posts r). post_graph_id post = Inr g}
                            - set (ids_current d self)
                     \<and> user_id e = pk u)
               \<and> (\<exists>e'\<in>set (through d'). obj_id e' = self_pk self \<and> user_id e' = user_id e
                     \<and> time_to e' = None \<and> time_from e' \<noteq> None)))"
  proof (cases "api_call env (self_graph_id self @ ''/sharedposts'') None kw")
    case None
    with run have "d' = d"
      by (simp add: fetch_shares_def)
    with e gone show ?thesis by simp
  next
    case (Some r)
    from fetch_shares_pairs [OF Some run] obtain ps ids pairs where
      ps: "timestamp_pairs env (shares_posts r) = Inr ps"
      and loop: "shares_loop env (ids_add (ids_new ps) (ids_current d self)) (shares_posts r) [] []
          = Inr (ids, pairs)"
      and d': "through d' = delete_old_shares self pairs (through d)
          @ new_shares self (timestamps ps) pairs"
      and add: "ids_add (ids_new ps) (ids_current d self)
          = {g. \<exists>post\<in>set (shares_posts r). post_graph_id post = Inr g} - set (ids_current d self)"
      by blast
    from gone have "e \<notin> set (delete_old_shares self pairs (through d))"
      by (simp add: d')
    with e have own: "obj_id e = self_pk self"
      and why: "time_from e = None \<or> user_id e \<in> snd ` set pairs"
      by (auto simp: delete_old_shares_member)
    show ?thesis
    proof (cases "time_from e = None")
      case True
      with own show ?thesis by simp
    next
      case False
      with why obtain g where gp: "(g, user_id e) \<in> set pairs" by auto
      from shares_loop_sound [OF loop gp] obtain post u where
        post: "post \<in> set (shares_posts r)" "resolves env post g u" "user_id e = pk u"
        and g: "g \<in> ids_add (ids_new ps) (ids_current d self)"
        by auto
      from ids_add_stamped [OF g] obtain t where t: "timestamps ps g = Some t" by blast
      let ?e = "\<lparr>obj_id = self_pk self, user_id = user_id e,
          time_from = get_share_date self (timestamps ps) g, time_to = None\<rparr>"
      have "?e \<in> set (new_shares self (timestamps ps) pairs)"
        using gp by (auto simp: new_shares_member)
      then have "?e \<in> set (through d')"
        by (simp add: d')
      moreover have "time_from ?e \<noteq> None"
        by (simp add: get_share_date_def t)
      ultimately have fresh: "\<exists>e'\<in>set (through d'). obj_id e' = self_pk self
          \<and> user_id e' = user_id e \<and> time_to e' = None \<and> time_from e' \<noteq> None"
        by (intro bexI [of _ ?e]) simp_all
      from post g [unfolded add] have "\<exists>post\<in>set (shares_posts r). \<exists>g u. resolves env post g u
          \<and> g \<in> {g. \<exists>post\<in>set (shares_posts r). post_graph_id post = Inr g}
                 - set (ids_current d self)
          \<and> user_id e = pk u"
        by blast
      with own Some fresh show ?thesis by blast
    qed
  qed
qed

text \<open>
  On the sample page the removed share of user 10, which has a start time, is a row
  of the record whose user has a new stamped edge after the run; the row of record 2
  stays.
\<close>

theorem fetch_shares_deletes_witness:
  "obj_id ended_share = self_pk counted_post
   \<and> (\<exists>e'\<in>set [current_share, foreign_share, ann_share]. user_id e' = user_id ended_share
         \<and> time_to e' = None \<and> time_from e' \<noteq> None)
   \<and> foreign_share \<in> set [current_share, foreign_share, ann_share]"
proof -
  let ?d' = "sample_db\<lparr>through := [current_share, foreign_share, ann_share]\<rparr>"
  note deletes = fetch_shares_deletes [OF sample_fetch_shares, THEN bspec, THEN mp]
  have ended: "ended_share \<in> set (through sample_db)" "ended_share \<notin> set (through ?d')"
    by (simp_all add: sample_db_def ended_share_def current_share_def foreign_share_def ann_share_def)
  have stamped: "time_from ended_share \<noteq> None"
    by (simp add: ended_share_def)
  from deletes [OF ended] have own: "obj_id ended_share = self_pk counted_post"
    and why: "time_from ended_share = None
      \<or> (\<exists>r. api_call (sample_env shares_page) (self_graph_id counted_post @ ''/sharedposts'') None None
                = Some r
            \<and> (\<exists>post\<in>set (shares_posts r). \<exists>g u. resolves (sample_env shares_page) post g u
                  \<and> g \<in> {g. \<exists>post\<in>set (shares_posts r). post_graph_id post = Inr g}
                         - set (ids_current sample_db counted_post)
                  \<and> user_id ended_share = pk u)
            \<and> (\<exists>e'\<in>set (through ?d'). obj_id e' = self_pk counted_post
                  \<and> user_id e' = user_id ended_share \<and> time_to e' = None \<and> time_from e' \<noteq> None))"
    by (rule conjunct1, rule conjunct2)
  from why stamped obtain e' where "e' \<in> set (through ?d')" "user_id e' = user_id ended_share"
    "time_to e' = None" "time_from e' \<noteq> None"
    by (elim disjE exE conjE bexE) simp_all
  then have again: "\<exists>e'\<in>set [current_share, foreign_share, ann_share]. user_id e' = user_id ended_share
      \<and> time_to e' = None \<and> time_from e' \<noteq> None"
    by (intro bexI [of _ e']) simp_all
  have foreign: "foreign_share \<in> set (through sample_db)"
    by (simp add: sample_db_def)
  have kept: "foreign_share \<in> set (through ?d')"
  proof (rule ccontr)
    assume "foreign_share \<notin> set (through ?d')"
    from deletes [OF foreign this] have "obj_id foreign_share = self_pk counted_post"
      by (rule conjunct1)
    then show False
      by (simp add: foreign_share_def counted_post_def)
  qed
  from own again kept show ?thesis by simp
qed

text \<open>
  C2 as stated fails on the sample page: the ended share of user 10, with start
  time 5, is deleted, since user 10 is added again.
\<close>

theorem fetch_shares_deletes_counterexample:
  "fetch_shares (sample_env shares_page) sample_db counted_post None
     = Inr (sample_db\<lparr>through := [current_share, foreign_share, ann_share]\<rparr>, [10], Some shares_page)
   \<and> ended_share \<in> set (through sample_db)
   \<and> time_from ended_share = Some 5
   \<and> ended_share \<notin> set [current_share, foreign_share, ann_share]"
  using sample_fetch_shares
  by (simp add: sample_db_def ended_share_def current_share_def foreign_share_def ann_share_def)

text \<open>
  C6. The edges \<^verbatim>\<open>fetch_shares\<close> creates are the rows built from \<^verbatim>\<open>ids_add_pairs\<close>,
  appended to what the deletions left. Each is stamped with \<^verbatim>\<open>get_share_date\<close> of its
  user's remote id, and that is the parsed \<^verbatim>\<open>created_time\<close> of a remote post: the
  last post of the page with that author id, which is the entry of the id in the
  timestamp map. \<^verbatim>\<open>get_share_date\<close> itself gives the entry of the map for an id that
  is in it, and the record's own \<^verbatim>\<open>created_time\<close> for any other id.
\<close>

theorem fetch_shares_stamps:
  assumes api: "api_call env (self_graph_id self @ ''/sharedposts'') None kw = Some r"
    and run: "fetch_shares env d self kw = Inr (d', us, resp)"
  shows "(\<exists>ps ids pairs.
      timestamp_pairs env (shares_posts r) = Inr ps
      \<and> shares_loop env (ids_add (ids_new ps) (ids_current d self)) (shares_posts r) [] []
          = Inr (ids, pairs)
      \<and> through d' = delete_old_shares self pairs (through d) @ new_shares self (timestamps ps) pairs
      \<and> (\<forall>e\<in>set (new_shares self (timestamps ps) pairs).
           \<exists>g. (g, user_id e) \<in> set pairs
             \<and> time_from e = get_share_date self (timestamps ps) g
             \<and> (\<exists>xs post ys t. shares_posts r = xs @ post # ys \<and> post_graph_id post = Inr g
                   \<and> post_created_time env post = Inr t
                   \<and> (\<forall>q\<in>set ys. post_graph_id q \<noteq> Inr g)
                   \<and> timestamps ps g = Some t \<and> time_from e = Some t)))
     \<and> (\<forall>ts g t. ts g = Some t \<longrightarrow> get_share_date self ts g = Some t)
     \<and> (\<forall>ts g. ts g = None \<longrightarrow> get_share_date self ts g = created_time self)"
proof -
  from fetch_shares_pairs [OF api run] obtain ps ids pairs where
    ps: "timestamp_pairs env (shares_posts r) = Inr ps"
    and loop: "shares_loop env (ids_add (ids_new ps) (ids_current d self)) (shares_posts r) [] []
        = Inr (ids, pairs)"
    and d': "through d' = delete_old_shares self pairs (through d)
        @ new_shares self (timestamps ps) pairs"
    by blast
  have stamped: "\<exists>g. (g, user_id e) \<in> set pairs
             \<and> time_from e = get_share_date self (timestamps ps) g
             \<and> (\<exists>xs post ys t. shares_posts r = xs @ post # ys \<and> post_graph_id post = Inr g
                   \<and> post_created_time env post = Inr t
                   \<and> (\<forall>q\<in>set ys. post_graph_id q \<noteq> Inr g)
                   \<and> timestamps ps g = Some t \<and> time_from e = Some t)"
    if "e \<in> set (new_shares self (timestamps ps) pairs)" for e
  proof -
    from that obtain g p where gp: "(g, p) \<in> set pairs"
      and e: "e = \<lparr>obj_id = self_pk self, user_id = p,
        time_from = get_share_date self (timestamps ps) g, time_to = None\<rparr>"
      by (auto simp: new_shares_member)
    from shares_loop_sound [OF loop gp]
    have "g \<in> ids_add (ids_new ps) (ids_current d self)" by auto
    then have "g \<in> fst ` set ps"
      by (auto simp: ids_add_def ids_new_def)
    from last_post_of [OF ps this] obtain xs post ys t where
      "shares_posts r = xs @ post # ys" "post_graph_id post = Inr g"
        "post_created_time env post = Inr t" "\<forall>q\<in>set ys. post_graph_id q \<noteq> Inr g"
        "timestamps ps g = Some t"
      by blast
    then show ?thesis
      using gp e by (intro exI [of _ g]) (auto simp: get_share_date_def)
  qed
  have "\<forall>ts g t. ts g = Some t \<longrightarrow> get_share_date self ts g = Some t"
    and "\<forall>ts g. ts g = None \<longrightarrow> get_share_date self ts g = created_time self"
    by (simp_all add: get_share_date_def)
  with ps loop d' stamped show ?thesis by blast
qed

text \<open>
  The stamps of the run on the page with two shares of Ann: the later time, 99.
  For an id outside the map \<^verbatim>\<open>get_share_date\<close> gives the record's time, 100.
\<close>

theorem fetch_shares_stamps_witness:
  "(\<exists>ps ids pairs.
      timestamp_pairs (sample_env twice_page) (shares_posts twice_page) = Inr ps
      \<and> shares_loop (sample_env twice_page) (ids_add (ids_new ps) (ids_current sample_db counted_post))
            (shares_posts twice_page) [] [] = Inr (ids, pairs)
      \<and> [current_share, foreign_share, ann_later_share]
          = delete_old_shares counted_post pairs (through sample_db)
            @ new_shares counted_post (timestamps ps) pairs
      \<and> (\<forall>e\<in>set (new_shares counted_post (timestamps ps) pairs).
           \<exists>g. (g, user_id e) \<in> set pairs
             \<and> time_from e = get_share_date counted_post (timestamps ps) g
             \<and> (\<exists>xs post ys t. shares_posts twice_page = xs @ post # ys \<and> post_graph_id post = Inr g
                   \<and> post_created_time (sample_env twice_page) post = Inr t
                   \<and> (\<forall>q\<in>set ys. post_graph_id q \<noteq> Inr g)
                   \<and> timestamps ps g = Some t \<and> time_from e = Some t)))
   \<and> get_share_date counted_post (timestamps [(100, 20), (100, 99)]) 100 = Some 99
   \<and> get_share_date counted_post (timestamps [(100, 20), (100, 99)]) 300 = Some 100"
proof -
  note stamps = fetch_shares_stamps [OF sample_api sample_twice]
  have in_map: "timestamps [(100, 20), (100, 99)] 100 = Some 99"
    and out: "timestamps [(100, 20), (100, 99)] 300 = None"
    by (simp_all add: timestamps_def)
  from stamps in_map have "get_share_date counted_post (timestamps [(100, 20), (100, 99)]) 100 = Some 99"
    by blast
  moreover from stamps out
  have "get_share_date counted_post (timestamps [(100, 20), (100, 99)]) 300 = created_time counted_post"
    by blast
  then have "get_share_date counted_post (timestamps [(100, 20), (100, 99)]) 300 = Some 100"
    by (simp add: counted_post_def)
  ultimately show ?thesis
    using stamps by simp
qed

text \<open>
  C7, as the code has it. The locally current ids of the share reconciliation are
  the remote ids of the users with an edge of the record that has no end time and
  has a start time.
\<close>

theorem ids_current_active_and_started:
  "g \<in> set (ids_current d self) \<longleftrightarrow>
     (\<exists>u\<in>set (users d). graph_id u = g
        \<and> (\<exists>e\<in>set (through d). obj_id e = self_pk self \<and> user_id e = pk u
              \<and> time_to e = None \<and> time_from e \<noteq> None))"
proof
  assume "g \<in> set (ids_current d self)"
  then obtain u e where "u \<in> set (users d)" "graph_id u = g" "e \<in> set (through d)"
    "obj_id e = self_pk self" "pk u = user_id e" "time_to e = None" "time_from e \<noteq> None"
    by (auto simp: ids_current_def get_query_set_def get_query_set_through_def)
  then show "\<exists>u\<in>set (users d). graph_id u = g
        \<and> (\<exists>e\<in>set (through d). obj_id e = self_pk self \<and> user_id e = pk u
              \<and> time_to e = None \<and> time_from e \<noteq> None)"
    by (intro bexI [of _ u] conjI bexI [of _ e]) simp_all
next
  assume "\<exists>u\<in>set (users d). graph_id u = g
        \<and> (\<exists>e\<in>set (through d). obj_id e = self_pk self \<and> user_id e = pk u
              \<and> time_to e = None \<and> time_from e \<noteq> None)"
  then obtain u e where u: "u \<in> set (users d)" "graph_id u = g" and e: "e \<in> set (through d)"
    "obj_id e = self_pk self" "user_id e = pk u" "time_to e = None" "time_from e \<noteq> None"
    by blast
  from e have "pk u \<in> set (map user_id (filter (\<lambda>e. time_from e \<noteq> None) (get_query_set d self)))"
    by (force simp: get_query_set_def get_query_set_through_def)
  with u show "g \<in> set (ids_current d self)"
    by (force simp: ids_current_def)
qed

text \<open>
  In the sample table the remote id 200 is current, 400 is not.
\<close>

theorem ids_current_active_and_started_witness:
  "200 \<in> set (ids_current sample_db counted_post) \<and> 400 \<notin> set (ids_current sample_db counted_post)"
  using ids_current_active_and_started [of 200 sample_db counted_post]
    ids_current_active_and_started [of 400 sample_db counted_post]
  by (simp add: sample_db_def counted_post_def ended_share_def current_share_def
      unstamped_share_def foreign_share_def)

text \<open>
  C7 as stated fails on the sample table: the row of user 40 (remote id 400) has no
  end time, and 400 is not among the current ids, since the row has no start time
  either.
\<close>

theorem ids_current_unstamped_counterexample:
  "unstamped_share \<in> set (through sample_db)
   \<and> obj_id unstamped_share = self_pk counted_post
   \<and> time_to unstamped_share = None
   \<and> \<lparr>pk = user_id unstamped_share, graph_id = 400\<rparr> \<in> set (users sample_db)
   \<and> 400 \<notin> set (ids_current sample_db counted_post)"
  by (simp add: sample_defs)

section \<open>Properties of the fetch loops\<close>

lemma likes_loop_skip:
  assumes "get_or_create_from_small_resource env x = Inl UnknownResourceType"
  shows "likes_loop env (xs @ x # ys) ids = likes_loop env (xs @ ys) ids"
  using assms by (induction xs arbitrary: ids) (auto split: sum.splits)

lemma reactions_step_caught:
  assumes "get_or_create_from_small_resource env x = Inl UnknownResourceType
      \<or> (map_of x ''type'' = None
          \<and> (\<forall>e. get_or_create_from_small_resource env x = Inl e \<longrightarrow>
                 e = UnknownResourceType \<or> e = KeyError))"
  shows "reactions_step env reaction x ids = Inl UnknownResourceType
      \<or> reactions_step env reaction x ids = Inl KeyError
      \<or> reactions_step env reaction x ids = Inr ids"
  using assms
  by (cases "get_or_create_from_small_resource env x")
     (auto simp: reactions_step_def add_reaction_user_def split: option.splits)

lemma reactions_loop_skip:
  assumes "get_or_create_from_small_resource env x = Inl UnknownResourceType
      \<or> (map_of x ''type'' = None
          \<and> (\<forall>e. get_or_create_from_small_resource env x = Inl e \<longrightarrow>
                 e = UnknownResourceType \<or> e = KeyError))"
  shows "reactions_loop env reaction (xs @ x # ys) ids = reactions_loop env reaction (xs @ ys) ids"
proof (induction xs arbitrary: ids)
  case Nil
  from reactions_step_caught [OF assms, of reaction ids] show ?case
    by auto
next
  case (Cons a xs)
  then show ?case
    by (simp split: sum.splits)
qed

lemma shares_posts_skip:
  assumes "case map_of x ''from'' of None \<Rightarrow> True | Some v \<Rightarrow> \<not> json_truthy v"
  shows "shares_posts (r\<lparr>data := xs @ x # ys\<rparr>) = shares_posts (r\<lparr>data := xs @ ys\<rparr>)"
  using assms by (auto simp: shares_posts_def split: option.splits)

lemma shares_loop_skip:
  assumes "post_graph_id x = Inr g"
    and "\<not> keys_id_name (post_from x)
      \<or> get_or_create_from_small_resource env (post_from x) = Inl UnknownResourceType"
  shows "shares_loop env add (xs @ x # ys) ids pairs = shares_loop env add (xs @ ys) ids pairs"
  using assms
proof (induction xs arbitrary: ids pairs)
  case Nil
  then show ?case by auto
next
  case (Cons a xs)
  then show ?case
    by (simp split: sum.splits)
qed

lemmas reaction_samples = sample_env_def sample_get_or_create_def keys_id_name_def digit_of_def digits_def strip_def is_space_def
  love_ann_def wow_bob_def untyped_cy_def like_dee_def love_eve_def shop_page_def

section \<open>Counts and user sets\<close>

lemma count_field_users_field: "count_field a \<noteq> users_field b"
  by (simp add: count_field_def users_field_def)

lemma reaction_fields_not_actions:
  "reaction \<in> set (''like'' # reaction_types) \<Longrightarrow>
   count_field reaction \<noteq> ''actions_count'' \<and> users_field reaction \<noteq> ''actions_count''"
  by (auto simp: reaction_types_def count_field_def users_field_def)

lemma builder_mirrors:
  assumes keep: "\<forall>x y f. save_method x = Inr y \<longrightarrow> f \<noteq> ''actions_count'' \<longrightarrow> attrs y f = attrs x f"
    and r: "reaction \<in> set (''like'' # reaction_types)"
    and run: "update_count_and_get_users_builder reaction save_method self instances = Inr (s', res)"
  shows "attrs s' (users_field reaction) = Some (PUsers instances)
     \<and> attrs s' (count_field reaction) = Some (PInt (int (length instances))) \<and> res = instances"
proof -
  let ?s = "setattr (setattr self (users_field reaction) (PUsers instances))
      (count_field reaction) (PInt (int (length instances)))"
  from run have saved: "save_method ?s = Inr s'" and res: "res = instances"
    by (auto simp: update_count_and_get_users_builder_def split: sum.splits)
  from reaction_fields_not_actions [OF r] keep saved
  have "attrs s' (users_field reaction) = attrs ?s (users_field reaction)"
    and "attrs s' (count_field reaction) = attrs ?s (count_field reaction)"
    by blast+
  then show ?thesis
    using res count_field_users_field [of reaction reaction] by (auto simp: setattr_def)
qed

lemma like_users_is_builder:
  "update_count_and_get_like_users = update_count_and_get_users_builder ''like''"
  by (intro ext)
     (simp add: update_count_and_get_like_users_def update_count_and_get_users_builder_def
        users_field_def count_field_def)

lemma model_save_keeps:
  "\<forall>x y f. model_save x = Inr y \<longrightarrow> f \<noteq> ''actions_count'' \<longrightarrow> attrs y f = attrs x f"
  by (simp add: model_save_def)

section \<open>Properties of fetch\_reactions\<close>

lemma reactions_loop_helper_only:
  assumes "get_or_create_from_small_resource env = get_or_create_from_small_resource env'"
  shows "reactions_loop env reaction rs ids = reactions_loop env' reaction rs ids"
proof (induction rs arbitrary: ids)
  case Nil
  then show ?case by simp
next
  case (Cons x rs)
  have "add_reaction_user env x ids = add_reaction_user env' x ids"
    by (simp add: add_reaction_user_def assms)
  then have "reactions_step env reaction x ids = reactions_step env' reaction x ids"
    by (simp add: reactions_step_def split: option.splits)
  with Cons show ?case by (simp split: sum.splits)
qed

text \<open>
  C8 at a collection of two pages. \<^verbatim>\<open>fetch_reactions\<close> makes its one request before
  the decorator is applied, so for every save method and every decorator its outcome
  on the two-page collection is its outcome on a collection that has the first page
  only; with the sample decorator the result of the \<^verbatim>\<open>love\<close> reactions is user 10 of
  the first page, without user 50, whose reaction is on the page the cursor
  \<^verbatim>\<open>c1\<close> requests.
\<close>

theorem fetch_reactions_single_request:
  "(\<forall>save_method fetch_all.
      fetch_reactions save_method fetch_all paged_env self reaction limit None
        = fetch_reactions save_method fetch_all (sample_env first_page) self reaction limit None)
   \<and> map_sum id snd (fetch_reactions model_save sample_fetch_all paged_env counted_post
         (Some ''love'') 1000 None) = Inr (Users [10])
   \<and> api_call paged_env (self_graph_id counted_post @ ''/reactions'') (Some 1000) (Some ''c1'')
        = Some second_page
   \<and> get_or_create_from_small_resource paged_env love_eve = Inr \<lparr>pk = 50, graph_id = 500\<rparr>"
proof (intro conjI allI)
  fix save_method :: save_method and fetch_all :: decorator
  have "get_or_create_from_small_resource paged_env
      = get_or_create_from_small_resource (sample_env first_page)"
    by (simp add: paged_env_def sample_env_def)
  from reactions_loop_helper_only [OF this]
  show "fetch_reactions save_method fetch_all paged_env self reaction limit None
        = fetch_reactions save_method fetch_all (sample_env first_page) self reaction limit None"
    by (simp add: fetch_reactions_def paged_env_def sample_env_def)
next
  show "map_sum id snd (fetch_reactions model_save sample_fetch_all paged_env counted_post
         (Some ''love'') 1000 None) = Inr (Users [10])"
    by (simp add: fetch_reactions_def types_def reaction_types_def upper_def upper_char_def
        lower_def lower_char_def paged_env_def first_page_def love_ann_def
        reactions_step_def add_reaction_user_def dict_set_def sample_get_or_create_def
        keys_id_name_def digit_of_def digits_def strip_def is_space_def sample_fetch_all_def get_user_ids_def User_objects_filter_def
        count_method_def update_count_and_get_users_builder_def update_count_and_get_like_users_def
        model_save_def)
next
  show "api_call paged_env (self_graph_id counted_post @ ''/reactions'') (Some 1000) (Some ''c1'')
        = Some second_page"
    by (simp add: paged_env_def)
next
  show "get_or_create_from_small_resource paged_env love_eve = Inr \<lparr>pk = 50, graph_id = 500\<rparr>"
    by (simp add: paged_env_def sample_get_or_create_def keys_id_name_def digit_of_def digits_def strip_def is_space_def love_eve_def)
qed

lemma dict_set_keys_new:
  "k \<notin> set (map fst d) \<Longrightarrow> map fst (dict_set d k v) = map fst d @ [k]"
  by (simp add: dict_set_def)

lemma reactions_results_keys:
  assumes "reactions_results save_method fetch_all reaction ids response ts self result = Inr (self', d)"
    and "distinct (map upper ts)"
    and "\<forall>t\<in>set ts. upper t \<notin> set (map fst result)"
  shows "map fst d = map fst result
      @ filter (\<lambda>k. case reaction of None \<Rightarrow> True | Some re \<Rightarrow> upper re = k) (map upper ts)"
  using assms
proof (induction ts arbitrary: self result)
  case Nil
  then show ?case by simp
next
  case (Cons t ts)
  from Cons.prems(2) have dist: "distinct (map upper ts)" and fresh: "upper t \<notin> set (map upper ts)"
    by simp_all
  show ?case
  proof (cases "case reaction of None \<Rightarrow> False | Some re \<Rightarrow> upper re \<noteq> upper t")
    case True
    with Cons.prems(1)
    have run: "reactions_results save_method fetch_all reaction ids response ts self result = Inr (self', d)"
      by simp
    from Cons.prems(3) have "\<forall>q\<in>set ts. upper q \<notin> set (map fst result)" by simp
    from Cons.IH [OF run dist this] True show ?thesis
      by (auto split: option.splits)
  next
    case False
    with Cons.prems(1) obtain self2 fetched where
      run: "reactions_results save_method fetch_all reaction ids response ts self2
              (dict_set result (upper t) fetched) = Inr (self', d)"
      by (auto split: option.splits sum.splits prod.splits)
    from Cons.prems(3) have new: "upper t \<notin> set (map fst result)" by simp
    have keys: "map fst (dict_set result (upper t) fetched) = map fst result @ [upper t]"
      using new by (rule dict_set_keys_new)
    have "\<forall>q\<in>set ts. upper q \<notin> set (map fst (dict_set result (upper t) fetched))"
    proof
      fix q
      assume q: "q \<in> set ts"
      then have "upper q \<in> set (map upper ts)" by simp
      with fresh have "upper q \<noteq> upper t" by auto
      moreover from Cons.prems(3) q have "upper q \<notin> set (map fst result)" by simp
      ultimately show "upper q \<notin> set (map fst (dict_set result (upper t) fetched))"
        by (simp add: keys)
    qed
    from Cons.IH [OF run dist this] False show ?thesis
      by (auto simp: keys split: option.splits)
  qed
qed

lemma types_upper:
  "map upper types = [''LOVE'', ''WOW'', ''HAHA'', ''SAD'', ''ANGRY'', ''THANKFUL'', ''LIKE'']"
  by (simp add: types_def reaction_types_def upper_def upper_char_def)

lemma filter_eq_distinct:
  "distinct xs \<Longrightarrow> filter (\<lambda>k. x = k) xs = (if x \<in> set xs then [x] else [])"
  by (induction xs) auto

lemma reactions_loop_filtered:
  "reactions_loop env (Some re) rs ids
     = reactions_loop env (Some re) (filter (\<lambda>x. map_of x ''type'' = Some (JStr (upper re))) rs) ids"
proof (induction rs arbitrary: ids)
  case Nil
  then show ?case by simp
next
  case (Cons x rs)
  show ?case
  proof (cases "map_of x ''type'' = Some (JStr (upper re))")
    case True
    with Cons show ?thesis by (simp split: sum.splits)
  next
    case False
    then have "reactions_step env (Some re) x ids = Inl KeyError
        \<or> reactions_step env (Some re) x ids = Inr ids"
      by (auto simp: reactions_step_def split: option.splits)
    with False Cons show ?thesis by auto
  qed
qed

text \<open>
  C9. When \<^verbatim>\<open>fetch_reactions\<close> returns for \<^verbatim>\<open>reaction=None\<close>, the result is a
  dictionary whose keys are the seven upper-cased type names, one entry each. When
  it returns for a given reaction, the result is the one entry of that reaction: the
  dictionary it built holds that single key. With a reaction given, the loop
  processes the page as if it held the resources of that type only.
\<close>

theorem fetch_reactions_shapes:
  "(fetch_reactions save_method fetch_all env self None limit kw = Inr (self', res) \<longrightarrow>
      (\<exists>d. res = Dictionary d
         \<and> map fst d = [''LOVE'', ''WOW'', ''HAHA'', ''SAD'', ''ANGRY'', ''THANKFUL'', ''LIKE'']))
   \<and> (fetch_reactions save_method fetch_all env self (Some re) limit kw = Inr (self', res) \<longrightarrow>
      (\<exists>ids' us.
          reactions_results save_method fetch_all (Some re) ids'
              (api_call env (self_graph_id self @ ''/reactions'') (Some limit) kw) types self []
            = Inr (self', [(upper re, us)])
          \<and> res = Users us))
   \<and> reactions_loop env (Some re) rs ids
        = reactions_loop env (Some re) (filter (\<lambda>x. map_of x ''type'' = Some (JStr (upper re))) rs) ids"
proof (intro conjI impI)
  assume "fetch_reactions save_method fetch_all env self None limit kw = Inr (self', res)"
  then obtain ids' d where
    run: "reactions_results save_method fetch_all None ids'
            (api_call env (self_graph_id self @ ''/reactions'') (Some limit) kw) types self []
          = Inr (self', d)"
    and res: "res = Dictionary d"
    by (auto simp: fetch_reactions_def Let_def split: sum.splits prod.splits)
  have dist: "distinct (map upper types)"
    by (simp add: types_upper)
  from reactions_results_keys [OF run dist] have "map fst d = map upper types"
    by simp
  with res show "\<exists>d. res = Dictionary d
         \<and> map fst d = [''LOVE'', ''WOW'', ''HAHA'', ''SAD'', ''ANGRY'', ''THANKFUL'', ''LIKE'']"
    by (simp add: types_upper)
next
  assume "fetch_reactions save_method fetch_all env self (Some re) limit kw = Inr (self', res)"
  then obtain ids' d us where
    run: "reactions_results save_method fetch_all (Some re) ids'
            (api_call env (self_graph_id self @ ''/reactions'') (Some limit) kw) types self []
          = Inr (self', d)"
    and found: "map_of d (upper re) = Some us"
    and res: "res = Users us"
    by (auto simp: fetch_reactions_def Let_def split: sum.splits prod.splits option.splits)
  have dist: "distinct (map upper types)"
    by (simp add: types_upper)
  from reactions_results_keys [OF run dist]
  have keys: "map fst d = filter (\<lambda>k. upper re = k) (map upper types)"
    by simp
  from found have "upper re \<in> set (map fst d)"
    by (metis map_of_eq_None_iff option.distinct(1) set_map)
  with keys have "map fst d = [upper re]"
    by (simp add: filter_eq_distinct [OF dist] split: if_splits)
  then obtain v where "d = [(upper re, v)]"
    by (cases d) auto
  with found have "d = [(upper re, us)]" by simp
  with run res show "\<exists>ids' us.
          reactions_results save_method fetch_all (Some re) ids'
              (api_call env (self_graph_id self @ ''/reactions'') (Some limit) kw) types self []
            = Inr (self', [(upper re, us)])
          \<and> res = Users us"
    by blast
next
  show "reactions_loop env (Some re) rs ids
        = reactions_loop env (Some re) (filter (\<lambda>x. map_of x ''type'' = Some (JStr (upper re))) rs) ids"
    by (rule reactions_loop_filtered)
qed

lemmas fetch_reactions_eval = fetch_reactions_def types_def reaction_types_def upper_def
  upper_char_def lower_def lower_char_def reactions_page_def
  reactions_step_def add_reaction_user_def dict_set_def
  sample_fetch_all_def get_user_ids_def User_objects_filter_def
  count_method_def update_count_and_get_users_builder_def update_count_and_get_like_users_def
  model_save_def

text \<open>
  Both shapes on the sample page.
\<close>

theorem fetch_reactions_shapes_witness:
  "map_sum id snd (fetch_reactions model_save sample_fetch_all (sample_env reactions_page)
       counted_post None 1000 None)
     = Inr (Dictionary [(''LOVE'', [10]), (''WOW'', [20]), (''HAHA'', []), (''SAD'', []),
                        (''ANGRY'', []), (''THANKFUL'', []), (''LIKE'', [40])])
   \<and> map_sum id snd (fetch_reactions model_save sample_fetch_all (sample_env reactions_page)
       counted_post (Some ''wow'') 1000 None) = Inr (Users [20])
   \<and> (\<exists>d. Dictionary [(''LOVE'', [10]), (''WOW'', [20]), (''HAHA'', []), (''SAD'', []),
                        (''ANGRY'', []), (''THANKFUL'', []), (''LIKE'', [40])] = Dictionary d
          \<and> map fst d = [''LOVE'', ''WOW'', ''HAHA'', ''SAD'', ''ANGRY'', ''THANKFUL'', ''LIKE''])
   \<and> (\<exists>s ids' us.
          reactions_results model_save sample_fetch_all (Some ''wow'') ids'
              (api_call (sample_env reactions_page) (self_graph_id counted_post @ ''/reactions'')
                 (Some 1000) None) types counted_post []
            = Inr (s, [(upper ''wow'', us)])
          \<and> Users [20] = Users us)"
proof -
  let ?d = "[(''LOVE'', [10]), (''WOW'', [20]), (''HAHA'', []), (''SAD'', []),
             (''ANGRY'', []), (''THANKFUL'', []), (''LIKE'', [40 :: int])]"
  have all: "map_sum id snd (fetch_reactions model_save sample_fetch_all (sample_env reactions_page)
       counted_post None 1000 None) = Inr (Dictionary ?d)"
    by (simp add: fetch_reactions_eval reaction_samples)
  have one: "map_sum id snd (fetch_reactions model_save sample_fetch_all (sample_env reactions_page)
       counted_post (Some ''wow'') 1000 None) = Inr (Users [20])"
    by (simp add: fetch_reactions_eval reaction_samples)
  from all obtain s0 where run0: "fetch_reactions model_save sample_fetch_all (sample_env reactions_page)
       counted_post None 1000 None = Inr (s0, Dictionary ?d)"
    by (cases "fetch_reactions model_save sample_fetch_all (sample_env reactions_page)
       counted_post None 1000 None") auto
  from one obtain s1 where run1: "fetch_reactions model_save sample_fetch_all (sample_env reactions_page)
       counted_post (Some ''wow'') 1000 None = Inr (s1, Users [20])"
    by (cases "fetch_reactions model_save sample_fetch_all (sample_env reactions_page)
       counted_post (Some ''wow'') 1000 None") auto
  have keys: "\<exists>d. Dictionary ?d = Dictionary d
      \<and> map fst d = [''LOVE'', ''WOW'', ''HAHA'', ''SAD'', ''ANGRY'', ''THANKFUL'', ''LIKE'']"
    using fetch_reactions_shapes
      [where save_method = model_save and fetch_all = sample_fetch_all
         and env = "sample_env reactions_page" and self = counted_post
         and limit = 1000 and kw = None and self' = s0 and res = "Dictionary ?d"]
      run0
    by blast
  have single: "\<exists>ids' us.
          reactions_results model_save sample_fetch_all (Some ''wow'') ids'
              (api_call (sample_env reactions_page) (self_graph_id counted_post @ ''/reactions'')
                 (Some 1000) None) types counted_post []
            = Inr (s1, [(upper ''wow'', us)])
          \<and> Users [20] = Users us"
    using fetch_reactions_shapes
      [where save_method = model_save and fetch_all = sample_fetch_all
         and env = "sample_env reactions_page" and self = counted_post and re = "''wow''"
         and limit = 1000 and kw = None and self' = s1 and res = "Users [20]"]
      run1
    by blast
  from all one keys single show ?thesis by blast
qed

section \<open>Skipped entries, and counts after a fetch\<close>

lemma fetch_reactions_phases:
  "fetch_reactions save_method fetch_all env self reaction limit kw =
     (let response = api_call env (self_graph_id self @ ''/reactions'') (Some limit) kw in
      case (case response of None \<Rightarrow> Inr (map (\<lambda>id_type. (upper id_type, [])) types)
            | Some r \<Rightarrow> reactions_loop env reaction (data r) (map (\<lambda>id_type. (upper id_type, [])) types)) of
        Inl e \<Rightarrow> Inl e
      | Inr ids' \<Rightarrow> reactions_return save_method fetch_all reaction ids' response self)"
  by (simp add: fetch_reactions_def reactions_return_def Let_def split: sum.splits)

lemma timestamp_pairs_parse_only:
  assumes "datetime_parse env' = datetime_parse env"
  shows "timestamp_pairs env' posts = timestamp_pairs env posts"
proof (induction posts)
  case Nil
  then show ?case by simp
next
  case (Cons post posts)
  have "post_created_time env' post = post_created_time env post"
    by (cases "map_of post ''created_time''") (simp_all add: post_created_time_def assms)
  with Cons show ?case by (simp cong: sum.case_cong)
qed

lemma shares_loop_helper_only:
  assumes "get_or_create_from_small_resource env' = get_or_create_from_small_resource env"
  shows "shares_loop env' add posts ids pairs = shares_loop env add posts ids pairs"
proof (induction posts arbitrary: ids pairs)
  case Nil
  then show ?case by simp
next
  case (Cons post posts)
  show ?case
  proof (cases "post_graph_id post")
    case (Inl e)
    then show ?thesis by simp
  next
    case (Inr g)
    show ?thesis
    proof (cases "get_or_create_from_small_resource env (post_from post)")
      case (Inl e)
      with Inr assms Cons.IH show ?thesis by simp
    next
      case u: (Inr u)
      with Inr assms Cons.IH show ?thesis by simp
    qed
  qed
qed

lemma timestamp_pairs_graph_id:
  "timestamp_pairs env posts = Inr ps \<Longrightarrow> x \<in> set posts \<Longrightarrow> \<exists>g. post_graph_id x = Inr g"
  by (induction posts arbitrary: ps) (auto split: sum.splits)

text \<open>
  C4, as the code has it. With an entry of the page for which the helper raises
  \<^verbatim>\<open>UnknownResourceType\<close>, \<^verbatim>\<open>fetch_likes\<close> and \<^verbatim>\<open>fetch_reactions\<close> do what they do on
  the page without the entry (the response handed on being the one received), and so
  does \<^verbatim>\<open>fetch_reactions\<close> with an entry without \<^verbatim>\<open>type\<close> (the helper raising nothing
  but \<^verbatim>\<open>UnknownResourceType\<close> or \<^verbatim>\<open>KeyError\<close> on it) and \<^verbatim>\<open>fetch_shares\<close> with a post
  without an author. A shared post whose author has other keys than \<^verbatim>\<open>id\<close> and
  \<^verbatim>\<open>name\<close>, or is of unknown type, is skipped by the loop of \<^verbatim>\<open>fetch_shares\<close> only: the
  users and the pairs are those of the other posts, while the remote ids and the
  timestamps are still those of the whole page.
\<close>

theorem unknown_resources_skipped:
  "(api_call env (self_graph_id self @ ''/likes'') (Some limit) kw = Some r
      \<and> data r = xs @ x # ys
      \<and> get_or_create_from_small_resource env x = Inl UnknownResourceType \<longrightarrow>
      fetch_likes env self limit kw
        = (case likes_loop env (xs @ ys) [] of
             Inl e \<Rightarrow> Inl e
           | Inr ids \<Rightarrow> Inr (User_objects_filter ids, Some r)))
   \<and> (api_call env (self_graph_id self @ ''/reactions'') (Some limit) kw = Some r
      \<and> data r = xs @ x # ys
      \<and> (get_or_create_from_small_resource env x = Inl UnknownResourceType
          \<or> (map_of x ''type'' = None
              \<and> (\<forall>e. get_or_create_from_small_resource env x = Inl e \<longrightarrow>
                     e = UnknownResourceType \<or> e = KeyError))) \<longrightarrow>
      fetch_reactions save_method fetch_all env self reaction limit kw
        = (case reactions_loop env reaction (xs @ ys) (map (\<lambda>id_type. (upper id_type, [])) types) of
             Inl e \<Rightarrow> Inl e
           | Inr ids' \<Rightarrow> reactions_return save_method fetch_all reaction ids' (Some r) self))
   \<and> (api_call env (self_graph_id self @ ''/sharedposts'') None kw = Some r
      \<and> data r = xs @ x # ys
      \<and> (case map_of x ''from'' of None \<Rightarrow> True | Some v \<Rightarrow> \<not> json_truthy v) \<longrightarrow>
      fetch_shares env d self kw
        = (case fetch_shares (env\<lparr>api_call := \<lambda>path limit kw. Some (r\<lparr>data := xs @ ys\<rparr>)\<rparr>) d self kw of
             Inl e \<Rightarrow> Inl e
           | Inr (d', us, resp) \<Rightarrow> Inr (d', us, Some r)))
   \<and> (api_call env (self_graph_id self @ ''/sharedposts'') None kw = Some r
      \<and> shares_posts r = xs @ x # ys
      \<and> (\<not> keys_id_name (post_from x)
          \<or> get_or_create_from_small_resource env (post_from x) = Inl UnknownResourceType) \<longrightarrow>
      fetch_shares env d self kw
        = (case timestamp_pairs env (shares_posts r) of
             Inl e \<Rightarrow> Inl e
           | Inr ps \<Rightarrow>
               (case shares_loop env (ids_add (ids_new ps) (ids_current d self)) (xs @ ys) [] [] of
                  Inl e \<Rightarrow> Inl e
                | Inr (ids, pairs) \<Rightarrow>
                    Inr (d\<lparr>through := delete_old_shares self pairs (through d)
                                       @ new_shares self (timestamps ps) pairs\<rparr>,
                         User_objects_filter ids, Some r))))"
proof (intro conjI impI)
  assume a: "api_call env (self_graph_id self @ ''/likes'') (Some limit) kw = Some r
      \<and> data r = xs @ x # ys
      \<and> get_or_create_from_small_resource env x = Inl UnknownResourceType"
  then have "likes_loop env (data r) [] = likes_loop env (xs @ ys) []"
    using likes_loop_skip by simp
  with a show "fetch_likes env self limit kw
        = (case likes_loop env (xs @ ys) [] of
             Inl e \<Rightarrow> Inl e
           | Inr ids \<Rightarrow> Inr (User_objects_filter ids, Some r))"
    by (simp add: fetch_likes_def)
next
  let ?ids = "map (\<lambda>id_type. (upper id_type, [])) types :: int list dict"
  assume a: "api_call env (self_graph_id self @ ''/reactions'') (Some limit) kw = Some r
      \<and> data r = xs @ x # ys
      \<and> (get_or_create_from_small_resource env x = Inl UnknownResourceType
          \<or> (map_of x ''type'' = None
              \<and> (\<forall>e. get_or_create_from_small_resource env x = Inl e \<longrightarrow>
                     e = UnknownResourceType \<or> e = KeyError)))"
  then have skip: "get_or_create_from_small_resource env x = Inl UnknownResourceType
          \<or> (map_of x ''type'' = None
              \<and> (\<forall>e. get_or_create_from_small_resource env x = Inl e \<longrightarrow>
                     e = UnknownResourceType \<or> e = KeyError))"
    by blast
  from a reactions_loop_skip [OF skip, of reaction xs ys ?ids]
  have "reactions_loop env reaction (data r) ?ids = reactions_loop env reaction (xs @ ys) ?ids"
    by simp
  with a show "fetch_reactions save_method fetch_all env self reaction limit kw
        = (case reactions_loop env reaction (xs @ ys) ?ids of
             Inl e \<Rightarrow> Inl e
           | Inr ids' \<Rightarrow> reactions_return save_method fetch_all reaction ids' (Some r) self)"
    by (simp add: fetch_reactions_phases)
next
  let ?env = "env\<lparr>api_call := \<lambda>path limit kw. Some (r\<lparr>data := xs @ ys\<rparr>)\<rparr>"
  assume a: "api_call env (self_graph_id self @ ''/sharedposts'') None kw = Some r
      \<and> data r = xs @ x # ys
      \<and> (case map_of x ''from'' of None \<Rightarrow> True | Some v \<Rightarrow> \<not> json_truthy v)"
  then have "shares_posts (r\<lparr>data := xs @ x # ys\<rparr>) = shares_posts (r\<lparr>data := xs @ ys\<rparr>)"
    using shares_posts_skip by blast
  moreover from a have "r\<lparr>data := xs @ x # ys\<rparr> = r" by simp
  ultimately have posts: "shares_posts (r\<lparr>data := xs @ ys\<rparr>) = shares_posts r" by simp
  have ts: "timestamp_pairs ?env = timestamp_pairs env"
    by (intro ext timestamp_pairs_parse_only) simp
  have loop: "shares_loop ?env = shares_loop env"
    by (intro ext shares_loop_helper_only) simp
  from a show "fetch_shares env d self kw
        = (case fetch_shares ?env d self kw of
             Inl e \<Rightarrow> Inl e
           | Inr (d', us, resp) \<Rightarrow> Inr (d', us, Some r))"
    by (simp add: fetch_shares_def posts ts loop Let_def split: sum.splits prod.splits)
next
  assume a: "api_call env (self_graph_id self @ ''/sharedposts'') None kw = Some r
      \<and> shares_posts r = xs @ x # ys
      \<and> (\<not> keys_id_name (post_from x)
          \<or> get_or_create_from_small_resource env (post_from x) = Inl UnknownResourceType)"
  show "fetch_shares env d self kw
        = (case timestamp_pairs env (shares_posts r) of
             Inl e \<Rightarrow> Inl e
           | Inr ps \<Rightarrow>
               (case shares_loop env (ids_add (ids_new ps) (ids_current d self)) (xs @ ys) [] [] of
                  Inl e \<Rightarrow> Inl e
                | Inr (ids, pairs) \<Rightarrow>
                    Inr (d\<lparr>through := delete_old_shares self pairs (through d)
                                       @ new_shares self (timestamps ps) pairs\<rparr>,
                         User_objects_filter ids, Some r)))"
  proof (cases "timestamp_pairs env (shares_posts r)")
    case (Inl e)
    with a show ?thesis by (simp add: fetch_shares_def)
  next
    case (Inr ps)
    from a have "x \<in> set (shares_posts r)" by simp
    from timestamp_pairs_graph_id [OF Inr this] obtain g where g: "post_graph_id x = Inr g" ..
    from a have skip: "\<not> keys_id_name (post_from x)
          \<or> get_or_create_from_small_resource env (post_from x) = Inl UnknownResourceType"
      by blast
    from a shares_loop_skip [OF g skip, of "ids_add (ids_new ps) (ids_current d self)" xs ys "[]" "[]"]
    have "shares_loop env (ids_add (ids_new ps) (ids_current d self)) (shares_posts r) [] []
        = shares_loop env (ids_add (ids_new ps) (ids_current d self)) (xs @ ys) [] []"
      by simp
    with a Inr show ?thesis
      by (simp add: fetch_shares_def Let_def)
  qed
qed

text \<open>
  The four cases on sample pages: a page among the likes, a reaction without type, a
  post without author, and a post of Ann's id with a category, which the loop skips
  and whose time stamps Ann's edge all the same.
\<close>

theorem unknown_resources_skipped_witness:
  "fetch_likes (sample_env likes_page) counted_post 1000 None = Inr ([30, 10], Some likes_page)
   \<and> map_sum id snd (fetch_reactions model_save sample_fetch_all (sample_env reactions_page)
         counted_post None 1000 None)
       = Inr (Dictionary [(''LOVE'', [10]), (''WOW'', [20]), (''HAHA'', []), (''SAD'', []),
                          (''ANGRY'', []), (''THANKFUL'', []), (''LIKE'', [40])])
   \<and> fetch_shares (sample_env shares_page) sample_db counted_post None
       = Inr (sample_db\<lparr>through := [current_share, foreign_share, ann_share]\<rparr>, [10], Some shares_page)
   \<and> fetch_shares (sample_env masked_page) sample_db counted_post None
       = Inr (sample_db\<lparr>through := [current_share, foreign_share, ann_later_share]\<rparr>, [10],
              Some masked_page)"
proof -
  let ?likes = "sample_env likes_page"
  have l1: "api_call ?likes (self_graph_id counted_post @ ''/likes'') (Some 1000) None = Some likes_page
      \<and> data likes_page = [untyped_cy] @ shop_page # [love_ann]
      \<and> get_or_create_from_small_resource ?likes shop_page = Inl UnknownResourceType"
    by (simp add: likes_page_def reaction_samples)
  have "fetch_likes ?likes counted_post 1000 None
        = (case likes_loop ?likes ([untyped_cy] @ [love_ann]) [] of
             Inl e \<Rightarrow> Inl e
           | Inr ids \<Rightarrow> Inr (User_objects_filter ids, Some likes_page))"
    using unknown_resources_skipped
      [where env = "?likes" and self = counted_post and limit = 1000 and kw = None
         and r = likes_page and xs = "[untyped_cy]" and x = shop_page and ys = "[love_ann]"]
      l1
    by (elim conjE) simp
  moreover have "likes_loop ?likes ([untyped_cy] @ [love_ann]) [] = Inr [30, 10]"
    by (simp add: reaction_samples)
  ultimately have likes: "fetch_likes ?likes counted_post 1000 None = Inr ([30, 10], Some likes_page)"
    by (simp add: User_objects_filter_def)
  let ?re = "sample_env reactions_page"
  let ?ids = "map (\<lambda>id_type. (upper id_type, [])) types :: int list dict"
  have r1: "api_call ?re (self_graph_id counted_post @ ''/reactions'') (Some 1000) None
        = Some reactions_page
      \<and> data reactions_page = [love_ann, wow_bob] @ untyped_cy # [like_dee]
      \<and> (get_or_create_from_small_resource ?re untyped_cy = Inl UnknownResourceType
          \<or> (map_of untyped_cy ''type'' = None
              \<and> (\<forall>e. get_or_create_from_small_resource ?re untyped_cy = Inl e \<longrightarrow>
                     e = UnknownResourceType \<or> e = KeyError)))"
    by (simp add: reactions_page_def reaction_samples)
  have "fetch_reactions model_save sample_fetch_all ?re counted_post None 1000 None
        = (case reactions_loop ?re None ([love_ann, wow_bob] @ [like_dee]) ?ids of
             Inl e \<Rightarrow> Inl e
           | Inr ids' \<Rightarrow> reactions_return model_save sample_fetch_all None ids' (Some reactions_page)
               counted_post)"
    using unknown_resources_skipped
      [where env = "?re" and self = counted_post and limit = 1000 and kw = None
         and r = reactions_page and xs = "[love_ann, wow_bob]" and x = untyped_cy
         and ys = "[like_dee]" and save_method = model_save and fetch_all = sample_fetch_all
         and reaction = None]
      r1
    by (elim conjE) simp
  moreover have "map_sum id snd
      (case reactions_loop ?re None ([love_ann, wow_bob] @ [like_dee]) ?ids of
         Inl e \<Rightarrow> Inl e
       | Inr ids' \<Rightarrow> reactions_return model_save sample_fetch_all None ids' (Some reactions_page)
           counted_post)
      = Inr (Dictionary [(''LOVE'', [10]), (''WOW'', [20]), (''HAHA'', []), (''SAD'', []),
                         (''ANGRY'', []), (''THANKFUL'', []), (''LIKE'', [40])])"
    by (simp add: reactions_return_def fetch_reactions_eval reaction_samples)
  ultimately have reactions: "map_sum id snd
      (fetch_reactions model_save sample_fetch_all ?re counted_post None 1000 None)
      = Inr (Dictionary [(''LOVE'', [10]), (''WOW'', [20]), (''HAHA'', []), (''SAD'', []),
                         (''ANGRY'', []), (''THANKFUL'', []), (''LIKE'', [40])])"
    by simp
  let ?sh = "sample_env shares_page"
  let ?short = "?sh\<lparr>api_call := \<lambda>path limit kw. Some (shares_page\<lparr>data := [share_ann, share_shop] @ []\<rparr>)\<rparr>"
  have s1: "api_call ?sh (self_graph_id counted_post @ ''/sharedposts'') None None = Some shares_page
      \<and> data shares_page = [share_ann, share_shop] @ share_anonymous # []
      \<and> (case map_of share_anonymous ''from'' of None \<Rightarrow> True | Some v \<Rightarrow> \<not> json_truthy v)"
    by (simp add: shares_page_def sample_env_def share_anonymous_def)
  have "fetch_shares ?sh sample_db counted_post None
        = (case fetch_shares ?short sample_db counted_post None of
             Inl e \<Rightarrow> Inl e
           | Inr (d', us, resp) \<Rightarrow> Inr (d', us, Some shares_page))"
    using unknown_resources_skipped
      [where env = "?sh" and self = counted_post and kw = None and r = shares_page
         and xs = "[share_ann, share_shop]" and x = share_anonymous and ys = "[]"
         and d = sample_db]
      s1
    by (elim conjE) simp
  moreover have "fetch_shares ?short sample_db counted_post None
      = Inr (sample_db\<lparr>through := [current_share, foreign_share, ann_share]\<rparr>, [10],
             Some (shares_page\<lparr>data := [share_ann, share_shop]\<rparr>))"
    by (simp add: fetch_shares_def sample_defs)
  ultimately have shares: "fetch_shares ?sh sample_db counted_post None
      = Inr (sample_db\<lparr>through := [current_share, foreign_share, ann_share]\<rparr>, [10], Some shares_page)"
    by simp
  let ?m = "sample_env masked_page"
  have m1: "api_call ?m (self_graph_id counted_post @ ''/sharedposts'') None None = Some masked_page
      \<and> shares_posts masked_page = [share_ann] @ share_ann_as_page # []
      \<and> (\<not> keys_id_name (post_from share_ann_as_page)
          \<or> get_or_create_from_small_resource ?m (post_from share_ann_as_page)
              = Inl UnknownResourceType)"
    by (simp add: more_samples sample_defs)
  have "fetch_shares ?m sample_db counted_post None
        = (case timestamp_pairs ?m (shares_posts masked_page) of
             Inl e \<Rightarrow> Inl e
           | Inr ps \<Rightarrow>
               (case shares_loop ?m (ids_add (ids_new ps) (ids_current sample_db counted_post))
                       ([share_ann] @ []) [] [] of
                  Inl e \<Rightarrow> Inl e
                | Inr (ids, pairs) \<Rightarrow>
                    Inr (sample_db\<lparr>through := delete_old_shares counted_post pairs (through sample_db)
                                       @ new_shares counted_post (timestamps ps) pairs\<rparr>,
                         User_objects_filter ids, Some masked_page)))"
    using unknown_resources_skipped
      [where env = "?m" and self = counted_post and kw = None and r = masked_page
         and xs = "[share_ann]" and x = share_ann_as_page and ys = "[]" and d = sample_db]
      m1
    by (elim conjE) simp
  moreover have "(case timestamp_pairs ?m (shares_posts masked_page) of
             Inl e \<Rightarrow> Inl e
           | Inr ps \<Rightarrow>
               (case shares_loop ?m (ids_add (ids_new ps) (ids_current sample_db counted_post))
                       ([share_ann] @ []) [] [] of
                  Inl e \<Rightarrow> Inl e
                | Inr (ids, pairs) \<Rightarrow>
                    Inr (sample_db\<lparr>through := delete_old_shares counted_post pairs (through sample_db)
                                       @ new_shares counted_post (timestamps ps) pairs\<rparr>,
                         User_objects_filter ids, Some masked_page)))
      = Inr (sample_db\<lparr>through := [current_share, foreign_share, ann_later_share]\<rparr>, [10],
             Some masked_page)"
    by (simp add: more_samples sample_defs)
  ultimately have masked: "fetch_shares ?m sample_db counted_post None
      = Inr (sample_db\<lparr>through := [current_share, foreign_share, ann_later_share]\<rparr>, [10],
             Some masked_page)"
    by simp
  from likes reactions shares masked show ?thesis by simp
qed

text \<open>
  C4 as stated fails in \<^verbatim>\<open>fetch_shares\<close>. A post with an author and no
  \<^verbatim>\<open>created_time\<close> is not skipped: the \<^verbatim>\<open>KeyError\<close> reaches the caller. And a post the
  loop skips affects another entry: with it Ann's edge is stamped 99, without it 20.
\<close>

theorem malformed_share_counterexample:
  "fetch_shares (sample_env undated_page) sample_db counted_post None = Inl KeyError
   \<and> fetch_shares (sample_env masked_page) sample_db counted_post None
       = Inr (sample_db\<lparr>through := [current_share, foreign_share, ann_later_share]\<rparr>, [10],
              Some masked_page)
   \<and> fetch_shares (sample_env ann_page) sample_db counted_post None
       = Inr (sample_db\<lparr>through := [current_share, foreign_share, ann_share]\<rparr>, [10], Some ann_page)
   \<and> time_from ann_later_share = Some 99 \<and> time_from ann_share = Some 20"
  by (simp add: fetch_shares_def undated_page_def share_undated_def more_samples sample_defs)

lemma count_method_builder:
  "count_method save_method n = update_count_and_get_users_builder n save_method"
  by (simp add: count_method_def like_users_is_builder)

lemma field_inject:
  "users_field a = users_field b \<longleftrightarrow> a = b" "count_field a = count_field b \<longleftrightarrow> a = b"
  by (simp_all add: users_field_def count_field_def)

lemma builder_returns:
  "update_count_and_get_users_builder n save_method s us = Inr (s', res) \<Longrightarrow> res = us"
  by (auto simp: update_count_and_get_users_builder_def split: sum.splits)

lemma builder_frame:
  assumes keep: "\<forall>x y f. save_method x = Inr y \<longrightarrow> f \<noteq> ''actions_count'' \<longrightarrow> attrs y f = attrs x f"
    and run: "update_count_and_get_users_builder n save_method s us = Inr (s', res)"
    and f: "f \<noteq> ''actions_count''" "f \<noteq> users_field n" "f \<noteq> count_field n"
  shows "attrs s' f = attrs s f"
proof -
  let ?s = "setattr (setattr s (users_field n) (PUsers us)) (count_field n) (PInt (int (length us)))"
  from run have saved: "save_method ?s = Inr s'"
    by (auto simp: update_count_and_get_users_builder_def split: sum.splits)
  from keep [rule_format, OF saved f(1)] have "attrs s' f = attrs ?s f" .
  with f(2,3) show ?thesis by (simp add: setattr_def)
qed

lemma map_of_dict_set_new:
  "k \<notin> set (map fst d) \<Longrightarrow> map_of (dict_set d k v) k' = (if k' = k then Some v else map_of d k')"
proof -
  assume new: "k \<notin> set (map fst d)"
  then have none: "map_of d k = None"
    by (simp add: map_of_eq_None_iff)
  have "map_of (dict_set d k v) k' = (map_of [(k, v)] ++ map_of d) k'"
    using new by (simp add: dict_set_def)
  also have "\<dots> = (if k' = k then Some v else map_of d k')"
    using none by (cases "map_of d k'") (auto simp: map_add_def)
  finally show ?thesis .
qed

text \<open>One round of the loop over the types.\<close>

lemma reactions_round:
  assumes keep: "\<forall>x y f. save_method x = Inr y \<longrightarrow> f \<noteq> ''actions_count'' \<longrightarrow> attrs y f = attrs x f"
    and ok: "\<forall>n l s s1 us. fetch_all (count_method save_method n) (get_user_ids l response) s = Inr (s1, us)
        \<longrightarrow> distinct us \<and> (s1 = s \<or> count_method save_method n s us = Inr (s1, us))"
    and n: "n \<in> set (''like'' # reaction_types)"
    and fetched: "fetch_all (count_method save_method n) (get_user_ids l response) self = Inr (self1, us)"
    and counted: "count_method save_method n self1 us = Inr (self2, res)"
  shows "distinct us"
    and "attrs self2 (users_field n) = Some (PUsers us)"
    and "attrs self2 (count_field n) = Some (PInt (int (card (set us))))"
    and "\<forall>f. f \<noteq> ''actions_count'' \<longrightarrow> f \<noteq> users_field n \<longrightarrow> f \<noteq> count_field n \<longrightarrow>
           attrs self2 f = attrs self f"
proof -
  from ok [rule_format, OF fetched] have dist: "distinct us"
    and via: "self1 = self \<or> count_method save_method n self us = Inr (self1, us)"
    by blast+
  show "distinct us" by (rule dist)
  from counted have run2: "update_count_and_get_users_builder n save_method self1 us = Inr (self2, res)"
    by (simp add: count_method_builder)
  from builder_mirrors [OF keep n run2]
  show "attrs self2 (users_field n) = Some (PUsers us)"
    and "attrs self2 (count_field n) = Some (PInt (int (card (set us))))"
    using dist by (simp_all add: distinct_card)
  show "\<forall>f. f \<noteq> ''actions_count'' \<longrightarrow> f \<noteq> users_field n \<longrightarrow> f \<noteq> count_field n \<longrightarrow>
           attrs self2 f = attrs self f"
  proof (intro allI impI)
    fix f
    assume f: "f \<noteq> ''actions_count''" "f \<noteq> users_field n" "f \<noteq> count_field n"
    have step2: "attrs self2 f = attrs self1 f"
      using builder_frame [OF keep run2 f] .
    from via have "attrs self1 f = attrs self f"
    proof
      assume "self1 = self"
      then show ?thesis by simp
    next
      assume "count_method save_method n self us = Inr (self1, us)"
      then have "update_count_and_get_users_builder n save_method self us = Inr (self1, us)"
        by (simp add: count_method_builder)
      from builder_frame [OF keep this f] show ?thesis .
    qed
    with step2 show "attrs self2 f = attrs self f" by simp
  qed
qed

lemma reactions_results_counts:
  assumes keep: "\<forall>x y f. save_method x = Inr y \<longrightarrow> f \<noteq> ''actions_count'' \<longrightarrow> attrs y f = attrs x f"
    and ok: "\<forall>n l s s1 us. fetch_all (count_method save_method n) (get_user_ids l response) s = Inr (s1, us)
        \<longrightarrow> distinct us \<and> (s1 = s \<or> count_method save_method n s us = Inr (s1, us))"
  shows "reactions_results save_method fetch_all reaction ids response ts self result = Inr (self', d) \<Longrightarrow>
    \<forall>t\<in>set ts. lower t \<in> set (''like'' # reaction_types) \<Longrightarrow>
    distinct (map lower ts) \<Longrightarrow> distinct (map upper ts) \<Longrightarrow>
    \<forall>t\<in>set ts. upper t \<notin> set (map fst result) \<Longrightarrow>
    (\<forall>f. f \<noteq> ''actions_count'' \<longrightarrow>
        (\<forall>t\<in>set ts. f \<noteq> users_field (lower t) \<and> f \<noteq> count_field (lower t)) \<longrightarrow>
        attrs self' f = attrs self f)
    \<and> (\<forall>k. k \<notin> upper ` set ts \<longrightarrow> map_of d k = map_of result k)
    \<and> (\<forall>t\<in>set ts. (case reaction of None \<Rightarrow> True | Some re \<Rightarrow> upper re = upper t) \<longrightarrow>
          (\<exists>us. map_of d (upper t) = Some us
             \<and> attrs self' (users_field (lower t)) = Some (PUsers us)
             \<and> attrs self' (count_field (lower t)) = Some (PInt (int (card (set us))))))"
proof (induction ts arbitrary: self result)
  case Nil
  then show ?case by simp
next
  case (Cons t ts)
  from Cons.prems(2) have names: "\<forall>q\<in>set ts. lower q \<in> set (''like'' # reaction_types)"
    and n: "lower t \<in> set (''like'' # reaction_types)"
    by simp_all
  from Cons.prems(3) have dl: "distinct (map lower ts)" and nl: "lower t \<notin> lower ` set ts"
    by simp_all
  from Cons.prems(4) have du: "distinct (map upper ts)" and nu: "upper t \<notin> upper ` set ts"
    by simp_all
  from Cons.prems(5) have fresh: "\<forall>q\<in>set ts. upper q \<notin> set (map fst result)"
    and new: "upper t \<notin> set (map fst result)"
    by simp_all
  show ?case
  proof (cases "case reaction of None \<Rightarrow> False | Some re \<Rightarrow> upper re \<noteq> upper t")
    case True
    with Cons.prems(1)
    have run: "reactions_results save_method fetch_all reaction ids response ts self result = Inr (self', d)"
      by simp
    from Cons.IH [OF run names dl du fresh]
    have frame: "\<forall>f. f \<noteq> ''actions_count'' \<longrightarrow>
        (\<forall>t\<in>set ts. f \<noteq> users_field (lower t) \<and> f \<noteq> count_field (lower t)) \<longrightarrow>
        attrs self' f = attrs self f"
      and old: "\<forall>k. k \<notin> upper ` set ts \<longrightarrow> map_of d k = map_of result k"
      and rest: "\<forall>t\<in>set ts. (case reaction of None \<Rightarrow> True | Some re \<Rightarrow> upper re = upper t) \<longrightarrow>
          (\<exists>us. map_of d (upper t) = Some us
             \<and> attrs self' (users_field (lower t)) = Some (PUsers us)
             \<and> attrs self' (count_field (lower t)) = Some (PInt (int (card (set us)))))"
      by blast+
    from True have skip: "\<not> (case reaction of None \<Rightarrow> True | Some re \<Rightarrow> upper re = upper t)"
      by (auto split: option.splits)
    from frame old rest skip show ?thesis by auto
  next
    case False
    then have proc: "case reaction of None \<Rightarrow> True | Some re \<Rightarrow> upper re = upper t"
      by (auto split: option.splits)
    from False Cons.prems(1) obtain l self1 fetched self2 res where
      fetched: "fetch_all (count_method save_method (lower t)) (get_user_ids l response) self
          = Inr (self1, fetched)"
      and counted: "count_method save_method (lower t) self1 fetched = Inr (self2, res)"
      and run: "reactions_results save_method fetch_all reaction ids response ts self2
              (dict_set result (upper t) fetched) = Inr (self', d)"
      by (auto split: option.splits sum.splits prod.splits)
    note round = reactions_round [OF keep ok n fetched counted]
    have fresh': "\<forall>q\<in>set ts. upper q \<notin> set (map fst (dict_set result (upper t) fetched))"
    proof
      fix q
      assume q: "q \<in> set ts"
      then have "upper q \<in> upper ` set ts" by simp
      with nu have "upper q \<noteq> upper t" by auto
      moreover from fresh q have "upper q \<notin> set (map fst result)" by simp
      ultimately show "upper q \<notin> set (map fst (dict_set result (upper t) fetched))"
        using new by (simp add: dict_set_def)
    qed
    from Cons.IH [OF run names dl du fresh']
    have frame: "\<forall>f. f \<noteq> ''actions_count'' \<longrightarrow>
        (\<forall>t\<in>set ts. f \<noteq> users_field (lower t) \<and> f \<noteq> count_field (lower t)) \<longrightarrow>
        attrs self' f = attrs self2 f"
      and old: "\<forall>k. k \<notin> upper ` set ts \<longrightarrow> map_of d k = map_of (dict_set result (upper t) fetched) k"
      and rest: "\<forall>t\<in>set ts. (case reaction of None \<Rightarrow> True | Some re \<Rightarrow> upper re = upper t) \<longrightarrow>
          (\<exists>us. map_of d (upper t) = Some us
             \<and> attrs self' (users_field (lower t)) = Some (PUsers us)
             \<and> attrs self' (count_field (lower t)) = Some (PInt (int (card (set us)))))"
      by blast+
    have notact: "users_field (lower t) \<noteq> ''actions_count''" "count_field (lower t) \<noteq> ''actions_count''"
      using reaction_fields_not_actions [OF n] by simp_all
    have apart: "\<forall>q\<in>set ts. users_field (lower t) \<noteq> users_field (lower q)
        \<and> users_field (lower t) \<noteq> count_field (lower q)
        \<and> count_field (lower t) \<noteq> users_field (lower q)
        \<and> count_field (lower t) \<noteq> count_field (lower q)"
    proof
      fix q
      assume "q \<in> set ts"
      then have "lower q \<in> lower ` set ts" by simp
      with nl have "lower t \<noteq> lower q" by auto
      then show "users_field (lower t) \<noteq> users_field (lower q)
        \<and> users_field (lower t) \<noteq> count_field (lower q)
        \<and> count_field (lower t) \<noteq> users_field (lower q)
        \<and> count_field (lower t) \<noteq> count_field (lower q)"
        using count_field_users_field [of "lower t" "lower q"]
          count_field_users_field [of "lower q" "lower t"]
        by (auto simp: field_inject)
    qed
    have here: "\<exists>us. map_of d (upper t) = Some us
             \<and> attrs self' (users_field (lower t)) = Some (PUsers us)
             \<and> attrs self' (count_field (lower t)) = Some (PInt (int (card (set us))))"
    proof (intro exI [of _ fetched] conjI)
      from old nu have "map_of d (upper t) = map_of (dict_set result (upper t) fetched) (upper t)"
        by blast
      then show "map_of d (upper t) = Some fetched"
        using new by (simp add: map_of_dict_set_new)
      from frame notact(1) apart have "attrs self' (users_field (lower t)) = attrs self2 (users_field (lower t))"
        by blast
      with round(2) show "attrs self' (users_field (lower t)) = Some (PUsers fetched)" by simp
      from frame notact(2) apart have "attrs self' (count_field (lower t)) = attrs self2 (count_field (lower t))"
        by blast
      with round(3) show "attrs self' (count_field (lower t)) = Some (PInt (int (card (set fetched))))"
        by simp
    qed
    have frame_all: "\<forall>f. f \<noteq> ''actions_count'' \<longrightarrow>
        (\<forall>q\<in>set (t # ts). f \<noteq> users_field (lower q) \<and> f \<noteq> count_field (lower q)) \<longrightarrow>
        attrs self' f = attrs self f"
    proof (intro allI impI)
      fix f
      assume f: "f \<noteq> ''actions_count''"
        and others: "\<forall>q\<in>set (t # ts). f \<noteq> users_field (lower q) \<and> f \<noteq> count_field (lower q)"
      from others have "\<forall>q\<in>set ts. f \<noteq> users_field (lower q) \<and> f \<noteq> count_field (lower q)"
        and "f \<noteq> users_field (lower t)" "f \<noteq> count_field (lower t)"
        by simp_all
      with frame f round(4) show "attrs self' f = attrs self f"
        by simp
    qed
    have old_all: "\<forall>k. k \<notin> upper ` set (t # ts) \<longrightarrow> map_of d k = map_of result k"
    proof (intro allI impI)
      fix k
      assume "k \<notin> upper ` set (t # ts)"
      then have "k \<noteq> upper t" "k \<notin> upper ` set ts" by auto
      with old new show "map_of d k = map_of result k"
        by (simp add: map_of_dict_set_new)
    qed
    from here rest have "\<forall>q\<in>set (t # ts). (case reaction of None \<Rightarrow> True | Some re \<Rightarrow> upper re = upper q) \<longrightarrow>
          (\<exists>us. map_of d (upper q) = Some us
             \<and> attrs self' (users_field (lower q)) = Some (PUsers us)
             \<and> attrs self' (count_field (lower q)) = Some (PInt (int (card (set us)))))"
      by simp
    with frame_all old_all show ?thesis by blast
  qed
qed

lemma types_lower:
  "map lower types = [''love'', ''wow'', ''haha'', ''sad'', ''angry'', ''thankful'', ''like'']"
  by (simp add: types_def reaction_types_def lower_def lower_char_def)

lemma types_names: "\<forall>t\<in>set types. lower t \<in> set (''like'' # reaction_types)"
proof -
  have "set (map lower types) \<subseteq> set (''like'' # reaction_types)"
    unfolding types_lower by (simp add: reaction_types_def)
  then show ?thesis by auto
qed

text \<open>
  C3, as the code has it. The save method leaves the count and user attributes as
  they are, and the decorator hands back a queryset (each user once) and changes the
  record through the callback only. Then, when \<^verbatim>\<open>fetch_reactions\<close> completes, for every
  type it processed (the six reaction types and \<^verbatim>\<open>LIKE\<close>, or the one asked for) the
  count field equals the cardinality of the user set of that type, which is the
  entry returned for it; and the callback \<^verbatim>\<open>fetch_likes\<close> hands to the decorator leaves
  \<^verbatim>\<open>likes_count\<close> the cardinality of \<^verbatim>\<open>likes_users\<close>. The callback of the shares
  assigns no user set; it sets \<^verbatim>\<open>shares_count\<close> to the number of fetched users when
  the count is null and leaves the record as it is otherwise.
\<close>

theorem counts_mirror_user_sets:
  assumes keep: "\<forall>x y f. save_method x = Inr y \<longrightarrow> f \<noteq> ''actions_count'' \<longrightarrow> attrs y f = attrs x f"
    and ok: "\<forall>n l s s1 us.
        fetch_all (count_method save_method n)
          (get_user_ids l (api_call env (self_graph_id self @ ''/reactions'') (Some limit) kw)) s
          = Inr (s1, us)
        \<longrightarrow> distinct us \<and> (s1 = s \<or> count_method save_method n s us = Inr (s1, us))"
  shows "(fetch_reactions save_method fetch_all env self reaction limit kw = Inr (self', res) \<longrightarrow>
            (\<forall>t\<in>set types. (case reaction of None \<Rightarrow> True | Some re \<Rightarrow> upper re = upper t) \<longrightarrow>
               (\<exists>us. (case res of Dictionary d \<Rightarrow> map_of d (upper t) = Some us | Users vs \<Rightarrow> vs = us)
                  \<and> attrs self' (users_field (lower t)) = Some (PUsers us)
                  \<and> attrs self' (count_field (lower t)) = Some (PInt (int (card (set us)))))))
       \<and> (distinct instances
            \<and> update_count_and_get_like_users save_method s instances = Inr (s', r) \<longrightarrow>
            attrs s' ''likes_users'' = Some (PUsers instances)
            \<and> attrs s' ''likes_count'' = Some (PInt (int (card (set instances)))))
       \<and> (update_count_and_get_shares_users save_method s instances = Inr (s', r) \<longrightarrow>
            (if attrs s ''shares_count'' = Some PNone
             then attrs s' ''shares_count'' = Some (PInt (int (length instances)))
             else s' = s))"
proof (intro conjI impI ballI)
  fix t
  assume run: "fetch_reactions save_method fetch_all env self reaction limit kw = Inr (self', res)"
    and t: "t \<in> set types"
    and proc: "case reaction of None \<Rightarrow> True | Some re \<Rightarrow> upper re = upper t"
  let ?response = "api_call env (self_graph_id self @ ''/reactions'') (Some limit) kw"
  from run obtain ids' d where
    results: "reactions_results save_method fetch_all reaction ids' ?response types self [] = Inr (self', d)"
    and res: "case reaction of None \<Rightarrow> res = Dictionary d
              | Some re \<Rightarrow> (\<exists>us. map_of d (upper re) = Some us \<and> res = Users us)"
    by (auto simp: fetch_reactions_def Let_def split: sum.splits prod.splits option.splits)
  have dl: "distinct (map lower types)" by (simp add: types_lower)
  have du: "distinct (map upper types)" by (simp add: types_upper)
  have fresh: "\<forall>t\<in>set types. upper t \<notin> set (map fst ([] :: int list dict))" by simp
  from reactions_results_counts [OF keep ok results types_names dl du fresh] t proc
  obtain us where us: "map_of d (upper t) = Some us"
    "attrs self' (users_field (lower t)) = Some (PUsers us)"
    "attrs self' (count_field (lower t)) = Some (PInt (int (card (set us))))"
    by blast
  have "case res of Dictionary d \<Rightarrow> map_of d (upper t) = Some us | Users vs \<Rightarrow> vs = us"
  proof (cases reaction)
    case None
    with res us(1) show ?thesis by simp
  next
    case (Some re)
    with proc have "upper re = upper t" by simp
    with Some res us(1) show ?thesis by auto
  qed
  with us(2,3)
  show "\<exists>us. (case res of Dictionary d \<Rightarrow> map_of d (upper t) = Some us | Users vs \<Rightarrow> vs = us)
      \<and> attrs self' (users_field (lower t)) = Some (PUsers us)
      \<and> attrs self' (count_field (lower t)) = Some (PInt (int (card (set us))))"
    by blast
next
  assume a: "distinct instances
      \<and> update_count_and_get_like_users save_method s instances = Inr (s', r)"
  then have run: "update_count_and_get_users_builder ''like'' save_method s instances = Inr (s', r)"
    by (simp add: like_users_is_builder)
  have like: "''like'' \<in> set (''like'' # reaction_types)" by simp
  have card: "length instances = card (set instances)"
    using a by (simp add: distinct_card)
  from builder_mirrors [OF keep like run]
  have "attrs s' (users_field ''like'') = Some (PUsers instances)"
    and "attrs s' (count_field ''like'') = Some (PInt (int (length instances)))"
    by blast+
  then show "attrs s' ''likes_users'' = Some (PUsers instances)"
    and "attrs s' ''likes_count'' = Some (PInt (int (card (set instances))))"
    unfolding card users_field_def count_field_def by simp_all
next
  assume run: "update_count_and_get_shares_users save_method s instances = Inr (s', r)"
  show "if attrs s ''shares_count'' = Some PNone
        then attrs s' ''shares_count'' = Some (PInt (int (length instances)))
        else s' = s"
  proof (cases "attrs s ''shares_count'' = Some PNone")
    case True
    with run have saved: "save_method (setattr s ''shares_count'' (PInt (int (length instances)))) = Inr s'"
      by (cases "save_method (setattr s ''shares_count'' (PInt (int (length instances))))")
         (simp_all add: update_count_and_get_shares_users_def getattr_def)
    have ne: "''shares_count'' \<noteq> ''actions_count''" by simp
    have "attrs s' ''shares_count''
        = attrs (setattr s ''shares_count'' (PInt (int (length instances)))) ''shares_count''"
      using keep [rule_format, OF saved ne] .
    with True show ?thesis by (simp add: setattr_def)
  next
    case False
    show ?thesis
    proof (cases "attrs s ''shares_count''")
      case None
      with run show ?thesis
        by (simp add: update_count_and_get_shares_users_def getattr_def)
    next
      case (Some v)
      with False have "v \<noteq> PNone" by simp
      with Some run have "s' = s"
        by (simp add: update_count_and_get_shares_users_def getattr_def)
      with False show ?thesis by simp
    qed
  qed
qed

lemma sample_fetch_all_ok:
  "\<forall>n l s s1 us.
      sample_fetch_all (count_method model_save n) (get_user_ids l response) s = Inr (s1, us)
      \<longrightarrow> distinct us \<and> (s1 = s \<or> count_method model_save n s us = Inr (s1, us))"
proof (intro allI impI)
  fix n l s s1 us
  assume "sample_fetch_all (count_method model_save n) (get_user_ids l response) s = Inr (s1, us)"
  then have run: "count_method model_save n s (User_objects_filter l) = Inr (s1, us)"
    by (simp add: sample_fetch_all_def get_user_ids_def)
  then have "us = User_objects_filter l"
    by (auto simp: count_method_builder dest: builder_returns)
  with run show "distinct us \<and> (s1 = s \<or> count_method model_save n s us = Inr (s1, us))"
    by (simp add: User_objects_filter_def)
qed

text \<open>
  After \<^verbatim>\<open>fetch_reactions\<close> on the sample page, with the framework's save and the
  sample decorator: one love, no haha, one like.
\<close>

theorem counts_mirror_user_sets_witness:
  "\<exists>s. fetch_reactions model_save sample_fetch_all (sample_env reactions_page) counted_post None 1000 None
          = Inr (s, Dictionary [(''LOVE'', [10]), (''WOW'', [20]), (''HAHA'', []), (''SAD'', []),
                               (''ANGRY'', []), (''THANKFUL'', []), (''LIKE'', [40])])
      \<and> attrs s ''loves_users'' = Some (PUsers [10]) \<and> attrs s ''loves_count'' = Some (PInt 1)
      \<and> attrs s ''hahas_users'' = Some (PUsers []) \<and> attrs s ''hahas_count'' = Some (PInt 0)
      \<and> attrs s ''likes_users'' = Some (PUsers [40]) \<and> attrs s ''likes_count'' = Some (PInt 1)"
proof -
  let ?d = "[(''LOVE'', [10]), (''WOW'', [20]), (''HAHA'', []), (''SAD'', []),
             (''ANGRY'', []), (''THANKFUL'', []), (''LIKE'', [40 :: int])]"
  have "map_sum id snd (fetch_reactions model_save sample_fetch_all (sample_env reactions_page)
       counted_post None 1000 None) = Inr (Dictionary ?d)"
    by (simp add: fetch_reactions_eval reaction_samples)
  then obtain s where run: "fetch_reactions model_save sample_fetch_all (sample_env reactions_page)
       counted_post None 1000 None = Inr (s, Dictionary ?d)"
    by (cases "fetch_reactions model_save sample_fetch_all (sample_env reactions_page)
       counted_post None 1000 None") auto
  note mirror = counts_mirror_user_sets
    [where save_method = model_save and fetch_all = sample_fetch_all
       and env = "sample_env reactions_page" and self = counted_post and limit = 1000
       and kw = None and reaction = None and self' = s and res = "Dictionary ?d",
     OF model_save_keeps sample_fetch_all_ok]
  from mirror run
  have all: "\<forall>t\<in>set types. \<exists>us. map_of ?d (upper t) = Some us
      \<and> attrs s (users_field (lower t)) = Some (PUsers us)
      \<and> attrs s (count_field (lower t)) = Some (PInt (int (card (set us))))"
    by simp
  have names: "upper ''love'' = ''LOVE''" "lower ''love'' = ''love''"
    "upper ''haha'' = ''HAHA''" "lower ''haha'' = ''haha''"
    "upper ''LIKE'' = ''LIKE''" "lower ''LIKE'' = ''like''"
    by (simp_all add: upper_def upper_char_def lower_def lower_char_def)
  have mem: "''love'' \<in> set types" "''haha'' \<in> set types" "''LIKE'' \<in> set types"
    by (simp_all add: types_def reaction_types_def)
  from all mem(1) obtain us1 where "map_of ?d (upper ''love'') = Some us1"
    "attrs s (users_field (lower ''love'')) = Some (PUsers us1)"
    "attrs s (count_field (lower ''love'')) = Some (PInt (int (card (set us1))))"
    by blast
  then have "attrs s ''loves_users'' = Some (PUsers [10]) \<and> attrs s ''loves_count'' = Some (PInt 1)"
    by (auto simp: names users_field_def count_field_def)
  moreover from all mem(2) obtain us2 where "map_of ?d (upper ''haha'') = Some us2"
    "attrs s (users_field (lower ''haha'')) = Some (PUsers us2)"
    "attrs s (count_field (lower ''haha'')) = Some (PInt (int (card (set us2))))"
    by blast
  then have "attrs s ''hahas_users'' = Some (PUsers []) \<and> attrs s ''hahas_count'' = Some (PInt 0)"
    by (auto simp: names users_field_def count_field_def)
  moreover from all mem(3) obtain us3 where "map_of ?d (upper ''LIKE'') = Some us3"
    "attrs s (users_field (lower ''LIKE'')) = Some (PUsers us3)"
    "attrs s (count_field (lower ''LIKE'')) = Some (PInt (int (card (set us3))))"
    by blast
  then have "attrs s ''likes_users'' = Some (PUsers [40]) \<and> attrs s ''likes_count'' = Some (PInt 1)"
    by (auto simp: names users_field_def count_field_def)
  ultimately show ?thesis
    using run by blast
qed

text \<open>
  C3 as stated fails for the shares. A record with \<^verbatim>\<open>shares_count\<close> 7 fetches the
  sample page and runs the callback on the fetched users: the count stays 7, while
  two users (20 and 10) have a current share of the record.
\<close>

theorem shares_count_counterexample:
  "fetch_shares (sample_env shares_page) sample_db shared_post None
     = Inr (sample_db\<lparr>through := [current_share, foreign_share, ann_share]\<rparr>, [10], Some shares_page)
   \<and> update_count_and_get_shares_users model_save shared_post [10] = Inr (shared_post, [10])
   \<and> attrs shared_post ''shares_count'' = Some (PInt 7)
   \<and> map user_id (get_query_set (sample_db\<lparr>through := [current_share, foreign_share, ann_share]\<rparr>)
         shared_post) = [20, 10]"
proof -
  have "fetch_shares (sample_env shares_page) sample_db shared_post None
     = Inr (sample_db\<lparr>through := [current_share, foreign_share, ann_share]\<rparr>, [10], Some shares_page)"
    by (simp add: fetch_shares_def shared_post_def setattr_def sample_defs)
  moreover have "update_count_and_get_shares_users model_save shared_post [10] = Inr (shared_post, [10])"
    by (simp add: update_count_and_get_shares_users_def getattr_def shared_post_def setattr_def)
  moreover have "attrs shared_post ''shares_count'' = Some (PInt 7)"
    by (simp add: shared_post_def setattr_def)
  moreover have "map user_id (get_query_set (sample_db\<lparr>through := [current_share, foreign_share, ann_share]\<rparr>)
         shared_post) = [20, 10]"
    by (simp add: get_query_set_def get_query_set_through_def shared_post_def setattr_def
        counted_post_def current_share_def foreign_share_def ann_share_def)
  ultimately show ?thesis by blast
qed

end
